theory Spec2Isabelle
  imports Main "HOL-Library.Sublist"
begin

section \<open>JavaScript values used by the models\<close>

text \<open>
  A string is the list of its code units; the models only look at code units below 256,
  so \<^typ>\<open>string\<close> is used. An exception or a rejected promise is a value of
  \<open>js_error\<close>; a function that can throw returns \<open>js_error + 'a\<close>.
  \<open>TypeError\<close> is what reading a property of \<^verbatim>\<open>undefined\<close> throws,
  \<open>NoFilesChangedError\<close> is the class of \<^verbatim>\<open>composer/errors\<close>, and \<open>Rejected\<close> stands for
  whatever a collaborator outside these sources throws.
\<close>

datatype js_error = TypeError | NoFilesChangedError | Rejected string

definition nl :: char where
  "nl = CHR 0x0A"

text \<open>The white space and line terminators that \<^verbatim>\<open>String.prototype.trim\<close> removes.\<close>

definition is_ws :: "char \<Rightarrow> bool" where
  "is_ws c = (c \<in> set [CHR 0x09, CHR 0x0A, CHR 0x0B, CHR 0x0C, CHR 0x0D, CHR 0x20, CHR 0xA0])"

text \<open>The characters that \<^verbatim>\<open>.\<close> does not match in a regular expression without the \<^verbatim>\<open>s\<close> flag.\<close>

definition is_line_terminator :: "char \<Rightarrow> bool" where
  "is_line_terminator c = (c = CHR 0x0A \<or> c = CHR 0x0D)"

definition trim :: "string \<Rightarrow> string" where
  "trim s = rev (dropWhile is_ws (rev (dropWhile is_ws s)))"

text \<open>
  \<open>cut_at sep s\<close> finds the leftmost occurrence of \<open>sep\<close> in \<open>s\<close> and returns what
  stands before and after it.
\<close>

fun cut_at :: "string \<Rightarrow> string \<Rightarrow> (string \<times> string) option" where
  "cut_at sep [] = (if sep = [] then Some ([], []) else None)"
| "cut_at sep (c # cs) =
     (if prefix sep (c # cs) then Some ([], drop (length sep) (c # cs))
      else (case cut_at sep cs of None \<Rightarrow> None | Some (b, a) \<Rightarrow> Some (c # b, a)))"

text \<open>
  \<^verbatim>\<open>s.split(sep)\<close> with a string separator: the pieces between the successive
  occurrences of \<open>sep\<close>, read from the left; the result of splitting the empty string is
  one empty piece. An empty separator splits into single code units.
\<close>

fun split_acc :: "string \<Rightarrow> string \<Rightarrow> string \<Rightarrow> string list" where
  "split_acc sep acc [] = [rev acc]"
| "split_acc sep acc (c # cs) =
     (if sep \<noteq> [] \<and> prefix sep (c # cs)
      then rev acc # split_acc sep [] (drop (length sep) (c # cs))
      else split_acc sep (c # acc) cs)"

definition split_str :: "string \<Rightarrow> string \<Rightarrow> string list" where
  "split_str sep s = (if sep = [] then map (\<lambda>c. [c]) s else split_acc sep [] s)"

text \<open>
  The regular expressions of \<^verbatim>\<open>parseResponse\<close>, each as the function that returns its
  first capture group (\<open>None\<close> when \<^verbatim>\<open>match\<close> returns \<^verbatim>\<open>null\<close>). The keys are
  literal text without metacharacters.

  \<^item> \<open>match_line k\<close> is \<^verbatim>\<open>/k(.*?)(?:\n|$)/\<close>: after an occurrence of \<open>k\<close> the
    group runs to the first line terminator, and the match succeeds there when that
    terminator is a line feed or the input ends; a carriage return makes this
    occurrence fail and the search goes on to the right.
  \<^item> \<open>match_until k stop\<close> is \<^verbatim>\<open>/k([\s\S]*?)(?:stop|$)/\<close> (also with the \<^verbatim>\<open>s\<close> flag
    and \<^verbatim>\<open>.\<close>, and with \<open>stop\<close> in a lookahead): from the first \<open>k\<close> to the first
    \<open>stop\<close> after it, or to the end of the input.
  \<^item> \<open>match_rest k\<close> is \<^verbatim>\<open>/k([\s\S]*?)$/\<close>: from the first \<open>k\<close> to the end.
\<close>

fun match_line :: "string \<Rightarrow> string \<Rightarrow> string option" where
  "match_line k [] = (if k = [] then Some [] else None)"
| "match_line k (c # cs) =
     (if prefix k (c # cs) then
        (let rest = drop (length k) (c # cs);
             g = takeWhile (\<lambda>x. \<not> is_line_terminator x) rest;
             after = dropWhile (\<lambda>x. \<not> is_line_terminator x) rest
         in if after = [] \<or> prefix [nl] after then Some g else match_line k cs)
      else match_line k cs)"

definition match_until :: "string \<Rightarrow> string \<Rightarrow> string \<Rightarrow> string option" where
  "match_until k stop s =
     (case cut_at k s of
        None \<Rightarrow> None
      | Some (_, rest) \<Rightarrow>
          (case cut_at stop rest of None \<Rightarrow> Some rest | Some (g, _) \<Rightarrow> Some g))"

definition match_rest :: "string \<Rightarrow> string \<Rightarrow> string option" where
  "match_rest k s = (case cut_at k s of None \<Rightarrow> None | Some (_, rest) \<Rightarrow> Some rest)"

section \<open>The code writer: \<^verbatim>\<open>parseResponse\<close>\<close>

text \<open>\<^verbatim>\<open>src/composer/tools/code-writer.ts\<close>, lines 13 to 107.\<close>

definition STEPS_START :: string where "STEPS_START = ''===STEPS_START===''"
definition STEPS_END :: string where "STEPS_END = ''===STEPS_END===''"
definition STEP_START :: string where "STEP_START = ''---STEP---''"
definition STEP_END :: string where "STEP_END = ''---END_STEP---''"
definition FILE_START :: string where "FILE_START = ''===FILE_START===''"
definition FILE_END :: string where "FILE_END = ''===FILE_END===''"

record step =
  description :: string
  command :: "string option"

record file_out =
  path :: string
  code :: string
  markdownLanguage :: string
  changes :: "string list option"

record CodeResponse =
  steps :: "step list"
  file' :: file_out

text \<open>
  \<^verbatim>\<open>extractSection\<close> matches \<^verbatim>\<open>start\n([\s\S]*?)\n end\<close>. The leftmost match begins at
  the first \<open>start\<close> followed by a line feed; if no line feed followed by \<open>end\<close> comes
  after that one, none comes after a later one either.
\<close>

definition extractSection :: "string \<Rightarrow> string \<Rightarrow> string \<Rightarrow> string" where
  "extractSection start fin content =
     (case cut_at (start @ [nl]) content of
        None \<Rightarrow> []
      | Some (_, rest) \<Rightarrow>
          (case cut_at (nl # fin) rest of None \<Rightarrow> [] | Some (body, _) \<Rightarrow> trim body))"

text \<open>
  \<^verbatim>\<open>block.split(STEP_END)[0].trim()\<close>: element 0 of an empty array would be
  \<^verbatim>\<open>undefined\<close>, and calling \<^verbatim>\<open>trim\<close> on it would throw.
\<close>

definition first_trim :: "string list \<Rightarrow> js_error + string" where
  "first_trim parts = (case parts of [] \<Rightarrow> Inl TypeError | p # _ \<Rightarrow> Inr (trim p))"

fun map_result :: "('a \<Rightarrow> js_error + 'b) \<Rightarrow> 'a list \<Rightarrow> js_error + 'b list" where
  "map_result f [] = Inr []"
| "map_result f (x # xs) =
     (case f x of
        Inl e \<Rightarrow> Inl e
      | Inr y \<Rightarrow> (case map_result f xs of Inl e \<Rightarrow> Inl e | Inr ys \<Rightarrow> Inr (y # ys)))"

definition parseStep :: "string \<Rightarrow> step option" where
  "parseStep block =
     (let descMatch = match_until ''Description: '' (nl # ''Command:'') block;
          cmdMatch = match_rest ''Command: '' block
      in case descMatch of
           None \<Rightarrow> None
         | Some d \<Rightarrow> Some \<lparr>description = trim d, command = map_option trim cmdMatch\<rparr>)"

definition parseSteps :: "string \<Rightarrow> js_error + step list" where
  "parseSteps stepsContent =
     (if stepsContent = [] then Inr []
      else
        (case map_result (\<lambda>block. first_trim (split_str STEP_END block))
                (filter (\<lambda>block. trim block \<noteq> []) (split_str STEP_START stepsContent)) of
           Inl e \<Rightarrow> Inl e
         | Inr stepBlocks \<Rightarrow> Inr (List.map_filter parseStep stepBlocks)))"

definition parseFile :: "string \<Rightarrow> file_out" where
  "parseFile fileContent =
     (if fileContent = [] then
        \<lparr>path = [], code = [], markdownLanguage = [], changes = Some []\<rparr>
      else
        \<lparr>path = (case match_line ''Path: '' fileContent of None \<Rightarrow> [] | Some g \<Rightarrow> trim g),
         code = (case match_until (''Code:'' @ [nl]) (nl # ''Changes:'') fileContent of
                   None \<Rightarrow> [] | Some g \<Rightarrow> trim g),
         markdownLanguage =
           (case match_line ''Language: '' fileContent of None \<Rightarrow> [] | Some g \<Rightarrow> trim g),
         changes =
           (case match_rest (''Changes:'' @ [nl]) fileContent of
              None \<Rightarrow> Some []
            | Some g \<Rightarrow>
                Some (map (drop 2)
                       (filter (\<lambda>line. prefix ''- '' line) (map trim (split_str [nl] g)))))\<rparr>)"

definition parseResponse :: "string \<Rightarrow> js_error + CodeResponse" where
  "parseResponse response =
     (case parseSteps (extractSection STEPS_START STEPS_END response) of
        Inl e \<Rightarrow> Inl e
      | Inr ss \<Rightarrow>
          Inr \<lparr>steps = ss, file' = parseFile (extractSection FILE_START FILE_END response)\<rparr>)"

section \<open>The code writer: \<^verbatim>\<open>codeWriterStep\<close>\<close>

text \<open>
  \<^verbatim>\<open>src/composer/tools/code-writer.ts\<close>, lines 266 to 432. The declarations of
  \<^verbatim>\<open>FileMetadata\<close> and \<^verbatim>\<open>PlanExecuteState\<close> are not among the sources; the records
  carry the fields that \<^verbatim>\<open>codeWriterStep\<close> reads and writes, optional where the code
  treats them as optional.
\<close>

record FileMetadata =
  fm_path :: string
  fm_code :: "string option"
  fm_language :: "string option"
  fm_changes :: "string list option"

record Plan =
  pl_files :: "FileMetadata list option"
  pl_summary :: "string option"

record PlanExecuteState =
  plan :: "Plan option"

record UpdatedPlan =
  up_files :: "FileMetadata list"
  up_summary :: string
  up_steps :: "step list"

text \<open>
  The loop mutates the elements of \<^verbatim>\<open>state.plan.files\<close> in place and pushes the very
  same objects to the local \<^verbatim>\<open>files\<close>. So the state of the loop holds the array
  \<^verbatim>\<open>state.plan?.files\<close> (\<open>planFiles\<close>, \<open>None\<close> for \<^verbatim>\<open>undefined\<close>), and \<open>filesAcc\<close>
  holds the positions in that array of the objects pushed so far, in the order of the
  pushes; \<open>listed\<close> reads them back. \<open>stepsAcc\<close> is the local \<^verbatim>\<open>steps\<close>.
\<close>

record writer_state =
  planFiles :: "FileMetadata list option"
  filesAcc :: "nat list"
  stepsAcc :: "step list"

text \<open>\<^verbatim>\<open>Array.prototype.find\<close>, as the position of the first element that satisfies \<open>P\<close>.\<close>

fun find_idx :: "('a \<Rightarrow> bool) \<Rightarrow> 'a list \<Rightarrow> nat option" where
  "find_idx P [] = None"
| "find_idx P (x # xs) =
     (if P x then Some 0 else (case find_idx P xs of None \<Rightarrow> None | Some j \<Rightarrow> Some (Suc j)))"

definition listed :: "writer_state \<Rightarrow> FileMetadata list" where
  "listed s = (case planFiles s of None \<Rightarrow> [] | Some pf \<Rightarrow> map (\<lambda>j. pf ! j) (filesAcc s))"

definition fileChanged :: "CodeResponse \<Rightarrow> bool" where
  "fileChanged result = (case changes (file' result) of None \<Rightarrow> False | Some cs \<Rightarrow> cs \<noteq> [])"

text \<open>
  What \<^verbatim>\<open>codeWriterStep\<close> calls outside these sources, each with its outcome:
  \<^verbatim>\<open>loadWingmanRules\<close> and \<^verbatim>\<open>buildObjective\<close> (lines 269 and 270, called once, they can
  throw), the chat model (\<open>invokeModel w i\<close> is the outcome of the \<open>i\<close>-th call of
  \<^verbatim>\<open>codeWriter.invoke\<close>: the text of the answer, or the error the call rejects with), and
  \<^verbatim>\<open>dispatchCustomEvent\<close> (\<open>dispatchCustomEvent w name i\<close> is the outcome of the awaited
  dispatch of the event \<open>name\<close> in turn \<open>i\<close>; the dispatch after the loop has the number
  of turns as its index). The prompt sent to the model and the payload of an event are
  built from the state but decide nothing in the function, so they are not part of the
  model; a rejection of any of these calls is, because no \<^verbatim>\<open>try\<close> stands around them.
\<close>

record writer_env =
  loadWingmanRules :: "js_error + unit"
  buildObjective :: "js_error + unit"
  invokeModel :: "nat \<Rightarrow> js_error + string"
  dispatchCustomEvent :: "string \<Rightarrow> nat \<Rightarrow> js_error + unit"

text \<open>One turn of the loop, lines 305 to 413.\<close>

definition writer_body :: "writer_env \<Rightarrow> nat \<Rightarrow> writer_state \<Rightarrow> js_error + writer_state" where
  "writer_body w i s =
     (case invokeModel w i of
        Inl e \<Rightarrow> Inl e
      | Inr out \<Rightarrow>
          (case parseResponse out of
             Inl e \<Rightarrow> Inl e
           | Inr result \<Rightarrow>
               (let s1 = s\<lparr>stepsAcc := stepsAcc s @ steps result\<rparr> in
                case dispatchCustomEvent w ''composer-manual-steps'' i of
                  Inl e \<Rightarrow> Inl e
                | Inr _ \<Rightarrow>
                    if \<not> list_ex (\<lambda>f. fm_path f = path (file' result)) (listed s1)
                       \<and> fileChanged result
                    then
                      (case planFiles s1 of
                         None \<Rightarrow> Inr s1
                       | Some pf \<Rightarrow>
                           (case find_idx (\<lambda>f. fm_path f = path (file' result)) pf of
                              None \<Rightarrow> Inr s1
                            | Some j \<Rightarrow>
                                (case dispatchCustomEvent w ''composer-plan-files'' i of
                                   Inl e \<Rightarrow> Inl e
                                 | Inr _ \<Rightarrow>
                                     Inr (s1\<lparr>planFiles :=
                                            Some (pf[j := (pf ! j)
                                              \<lparr>fm_language := Some (markdownLanguage (file' result)),
                                               fm_code := Some (code (file' result)),
                                               fm_changes :=
                                                 Some (case changes (file' result) of
                                                         None \<Rightarrow> [] | Some cs \<Rightarrow> cs)\<rparr>]),
                                          filesAcc := filesAcc s1 @ [j]\<rparr>))))
                    else Inr s1)))"

fun writer_loop :: "writer_env \<Rightarrow> nat list \<Rightarrow> writer_state \<Rightarrow> js_error + writer_state" where
  "writer_loop w [] s = Inr s"
| "writer_loop w (i # is) s =
     (case writer_body w i s of
        Inl e \<Rightarrow> Inl e
      | Inr s' \<Rightarrow> writer_loop w is s')"

definition stateFiles :: "PlanExecuteState \<Rightarrow> FileMetadata list option" where
  "stateFiles state = (case plan state of None \<Rightarrow> None | Some p \<Rightarrow> pl_files p)"

text \<open>
  The loop runs over \<^verbatim>\<open>state.plan?.files || [BLANK]\<close>: once for each planned file, and
  once, for the placeholder, when there is no list (an empty list is truthy, and gives no
  turn at all).
\<close>

definition iterations :: "PlanExecuteState \<Rightarrow> nat" where
  "iterations state = (case stateFiles state of None \<Rightarrow> 1 | Some pf \<Rightarrow> length pf)"

definition codeWriterStep :: "writer_env \<Rightarrow> PlanExecuteState \<Rightarrow> js_error + UpdatedPlan" where
  "codeWriterStep w state =
     (case loadWingmanRules w of
        Inl e \<Rightarrow> Inl e
      | Inr _ \<Rightarrow>
          (case buildObjective w of
             Inl e \<Rightarrow> Inl e
           | Inr _ \<Rightarrow>
               (case writer_loop w [0 ..< iterations state]
                       \<lparr>planFiles = stateFiles state, filesAcc = [], stepsAcc = []\<rparr> of
                  Inl e \<Rightarrow> Inl e
                | Inr s \<Rightarrow>
                    if filesAcc s = [] then Inl NoFilesChangedError
                    else
                      (case dispatchCustomEvent w ''composer-done'' (iterations state) of
                         Inl e \<Rightarrow> Inl e
                       | Inr _ \<Rightarrow>
                           Inr \<lparr>up_files = listed s,
                                up_summary =
                                  (case plan state of
                                     None \<Rightarrow> []
                                   | Some p \<Rightarrow> (case pl_summary p of None \<Rightarrow> [] | Some t \<Rightarrow> t)),
                                up_steps = stepsAcc s\<rparr>))))"

text \<open>
  The paths of the planned files, and the answers that count: answer \<open>i\<close> is accepted
  when the call resolved, the parsed file reports changes, and its path is the path of a
  planned file.
\<close>

definition planPaths :: "PlanExecuteState \<Rightarrow> string list" where
  "planPaths state = (case stateFiles state of None \<Rightarrow> [] | Some pf \<Rightarrow> map fm_path pf)"

definition accepted :: "writer_env \<Rightarrow> string list \<Rightarrow> nat \<Rightarrow> bool" where
  "accepted w paths i =
     (case invokeModel w i of
        Inl _ \<Rightarrow> False
      | Inr out \<Rightarrow>
          (case parseResponse out of
             Inl _ \<Rightarrow> False
           | Inr result \<Rightarrow> fileChanged result \<and> path (file' result) \<in> set paths))"

text \<open>What holds of the state of the loop after every turn.\<close>

definition statePaths :: "writer_state \<Rightarrow> string list" where
  "statePaths s = (case planFiles s of None \<Rightarrow> [] | Some pf \<Rightarrow> map fm_path pf)"

definition listed_ok :: "writer_state \<Rightarrow> bool" where
  "listed_ok s =
     (case planFiles s of
        None \<Rightarrow> filesAcc s = []
      | Some pf \<Rightarrow>
          list_all (\<lambda>j. j < length pf \<and>
                        (case fm_changes (pf ! j) of None \<Rightarrow> False | Some cs \<Rightarrow> cs \<noteq> []))
            (filesAcc s))"

section \<open>The chat input: \<^verbatim>\<open>handleUserInput\<close>\<close>

text \<open>
  \<^verbatim>\<open>views-ui/src/Chat/features/Chat/ChatInput.tsx\<close>, lines 27 to 46.
  The handler reads \<^verbatim>\<open>e.key\<close>, \<^verbatim>\<open>e.shiftKey\<close> and the value of the event's target, and
  has three effects: \<^verbatim>\<open>e.preventDefault()\<close>, a call of the \<^verbatim>\<open>onChatSubmitted\<close> prop and
  the assignment \<^verbatim>\<open>element.value = ""\<close>. The event carries what is read; the effects are
  fields of the state that is passed through: the calls of \<^verbatim>\<open>onChatSubmitted\<close> are
  recorded, in order, with their argument.

  \<^verbatim>\<open>shiftKey\<close> is optional because the send button calls the handler with an object
  that has no such field (\<^verbatim>\<open>undefined\<close>, which is falsy).
\<close>

record key_event =
  key :: string
  shiftKey :: "bool option"

record chat_dom =
  el_value :: string
  defaultPrevented :: bool
  submitted :: "string list"

definition handleUserInput :: "key_event \<Rightarrow> chat_dom \<Rightarrow> chat_dom" where
  "handleUserInput e d =
     (if key e = ''Enter'' then
        (if shiftKey e = Some True then d
         else
           (let message = el_value d in
            if message = [] then d
            else d\<lparr>defaultPrevented := True,
                   submitted := submitted d @ [message],
                   el_value := []\<rparr>))
      else d)"

section \<open>The language server: \<^verbatim>\<open>LSPServer\<close>\<close>

text \<open>
  \<^verbatim>\<open>src/server/index.ts\<close>. The classes \<^verbatim>\<open>Store\<close>, \<^verbatim>\<open>CodeGraph\<close>, \<^verbatim>\<open>CodeParser\<close>,
  \<^verbatim>\<open>Generator\<close>, \<^verbatim>\<open>Indexer\<close>, \<^verbatim>\<open>DocumentQueue\<close>, \<^verbatim>\<open>ProjectDetailsHandler\<close>,
  \<^verbatim>\<open>LSPFileEventHandler\<close> and \<^verbatim>\<open>VectorQuery\<close> are imported by this file and are not
  among the sources. An object of one of them is its identity, a number given out by
  \<^verbatim>\<open>new\<close>; what its methods answer is a parameter, the record \<open>env\<close>; and every call
  that reaches a collaborator or the client is written to the \<open>trace\<close> of the server,
  in the order of the calls. An awaited call can reject: its answer is a sum.
\<close>

type_synonym obj = nat

record EmbeddingSettings =
  enabled :: bool

record IndexerSettings =
  indexFilter :: string

record QueryDocs =
  relatedCodeDocs :: "string list"

record ProjectDetails =
  pd_description :: string

record EmbeddingsResponse =
  codeDocs :: "string list"
  er_projectDetails :: "string option"

text \<open>The values of the fields of the object that \<^verbatim>\<open>wingman/getIndex\<close> returns.\<close>

datatype jsval = JUndefined | JBool bool | JStrings "string list"

datatype event =
    ConsoleLog string
  | ConsoleError
  | SendRequest string
  | CreateAIProvider
  | NewStore obj "string option"
  | StoreInitialize obj
  | NewCodeParser obj
  | NewGenerator obj
  | NewIndexer obj "obj option" obj string
  | NewDocumentQueue obj obj
  | NewProjectDetailsHandler obj
  | GenerateProjectDetails obj
  | StoreCreateIndex obj
  | StoreDeleteIndex obj
  | QueueDispose obj
  | ClearFilterCache
  | FileEventHandlerDispose obj
  | NewFileEventHandler obj "obj option" "obj option" string
  | SetInclusionFilter obj string
  | IndexerClearCache obj
  | ProcessDocuments obj "string list" bool

text \<open>
  \<open>storeInitialize\<close> answers with the pair \<^verbatim>\<open>{result, codeGraph}\<close>. The arguments of
  \<open>NewIndexer\<close> are the new object, the code graph and the store it is given and the
  inclusion filter; those of \<open>NewFileEventHandler\<close> the new object, the store and the
  queue it is given and the filter; those of \<open>ProcessDocuments\<close> the indexer, the list
  of URIs and \<^verbatim>\<open>forceFull\<close>.
\<close>

record env =
  storeInitialize :: "obj \<Rightarrow> js_error + (bool \<times> obj option)"
  sendRequest :: "string \<Rightarrow> js_error + unit"
  generateProjectDetails :: "obj \<Rightarrow> js_error + unit"
  createIndex :: "obj \<Rightarrow> js_error + unit"
  indexExists :: "obj \<Rightarrow> js_error + bool"
  isSyncing :: "obj \<Rightarrow> bool"
  symbolTableKeys :: "obj \<Rightarrow> string list"
  filePathToUri :: "string \<Rightarrow> string"
  processDocuments :: "obj \<Rightarrow> string list \<Rightarrow> bool \<Rightarrow> js_error + unit"
  setInclusionFilter :: "obj \<Rightarrow> string \<Rightarrow> js_error + unit"
  retrieveDocumentsWithRelatedCode ::
    "string \<Rightarrow> obj option \<Rightarrow> obj option \<Rightarrow> string option \<Rightarrow> nat \<Rightarrow> js_error + QueryDocs option"
  retrieveProjectDetails :: "obj \<Rightarrow> js_error + ProjectDetails option"

text \<open>
  The fields of \<^verbatim>\<open>LSPServer\<close> that the handlers use, the module variables
  \<^verbatim>\<open>embeddingSettings\<close> and \<^verbatim>\<open>indexerSettings\<close> (\<open>None\<close> while \<^verbatim>\<open>undefined\<close>), the next
  free object identity and the trace.
\<close>

record server =
  workspaceFolders :: "string list"
  vectorStore :: "obj option"
  codeParser :: "obj option"
  codeGraph :: "obj option"
  queue :: "obj option"
  indexer :: "obj option"
  projectDetails :: "obj option"
  fileEventHandler :: "obj option"
  embeddingSettings :: "EmbeddingSettings option"
  indexerSettings :: "IndexerSettings option"
  nextObj :: obj
  trace :: "event list"

definition emit :: "event \<Rightarrow> server \<Rightarrow> server" where
  "emit ev st = st\<lparr>trace := trace st @ [ev]\<rparr>"

definition alloc :: "server \<Rightarrow> server" where
  "alloc st = st\<lparr>nextObj := Suc (nextObj st)\<rparr>"

text \<open>\<^verbatim>\<open>this.workspaceFolders[0]\<close>, \<^verbatim>\<open>undefined\<close> for an empty array.\<close>

definition firstFolder :: "server \<Rightarrow> string option" where
  "firstFolder st = (case workspaceFolders st of [] \<Rightarrow> None | w # _ \<Rightarrow> Some w)"

text \<open>
  \<^verbatim>\<open>postInitialize\<close>, lines 103 to 140, in two parts. \<open>openStore\<close> is lines 104 to 114:
  the model provider, the new \<^verbatim>\<open>Store\<close>, \<^verbatim>\<open>initialize\<close>, and the request
  \<^verbatim>\<open>wingman/failedLoadingStore\<close> when \<^verbatim>\<open>result\<close> is false; it returns the store and the
  code graph. \<open>buildIndexer\<close> is lines 116 to 139. Reading \<^verbatim>\<open>indexerSettings.indexFilter\<close>
  or \<^verbatim>\<open>embeddingSettings.enabled\<close> of an undefined variable throws.
\<close>

definition openStore :: "env \<Rightarrow> server \<Rightarrow> (js_error + (obj \<times> obj option)) \<times> server" where
  "openStore env st0 =
     (let st1 = emit (ConsoleLog ''Wingman LSP initialized for workspace'') (emit CreateAIProvider st0);
          sid = nextObj st1;
          st2 = emit (NewStore sid (firstFolder st1)) ((alloc st1)\<lparr>vectorStore := Some sid\<rparr>);
          st3 = emit (StoreInitialize sid) st2
      in case storeInitialize env sid of
           Inl e \<Rightarrow> (Inl e, st3)
         | Inr (result, graph) \<Rightarrow>
             if \<not> result then
               (let st4 = emit (SendRequest ''wingman/failedLoadingStore'') st3
                in case sendRequest env ''wingman/failedLoadingStore'' of
                     Inl e \<Rightarrow> (Inl e, st4)
                   | Inr _ \<Rightarrow> (Inr (sid, graph), st4))
             else (Inr (sid, graph), st3))"

definition buildIndexer :: "env \<Rightarrow> obj \<Rightarrow> obj option \<Rightarrow> server \<Rightarrow> (js_error + unit) \<times> server" where
  "buildIndexer env sid graph st0 =
     (let st1 = st0\<lparr>codeGraph := graph\<rparr>;
          pid = nextObj st1;
          st2 = emit (NewCodeParser pid) ((alloc st1)\<lparr>codeParser := Some pid\<rparr>);
          gid = nextObj st2;
          st3 = emit (NewGenerator gid) (alloc st2)
      in case indexerSettings st3 of
           None \<Rightarrow> (Inl TypeError, st3)
         | Some ixs \<Rightarrow>
             (let iid = nextObj st3;
                  st4 = emit (NewIndexer iid graph sid (indexFilter ixs))
                          ((alloc st3)\<lparr>indexer := Some iid\<rparr>);
                  qid = nextObj st4;
                  st5 = emit (NewDocumentQueue qid iid) ((alloc st4)\<lparr>queue := Some qid\<rparr>);
                  hid = nextObj st5;
                  st6 = emit (NewProjectDetailsHandler hid)
                          ((alloc st5)\<lparr>projectDetails := Some hid\<rparr>);
                  st7 = emit (GenerateProjectDetails hid) st6
              in case generateProjectDetails env hid of
                   Inl e \<Rightarrow> (Inl e, st7)
                 | Inr _ \<Rightarrow>
                     (case embeddingSettings st7 of
                        None \<Rightarrow> (Inl TypeError, st7)
                      | Some es \<Rightarrow>
                          if enabled es then
                            (let st8 = emit (StoreCreateIndex sid) st7
                             in case createIndex env sid of
                                  Inl e \<Rightarrow> (Inl e, st8)
                                | Inr _ \<Rightarrow> (Inr (), st8))
                          else (Inr (), st7))))"

definition postInitialize :: "env \<Rightarrow> server \<Rightarrow> (js_error + unit) \<times> server" where
  "postInitialize env st =
     (case openStore env st of
        (Inl e, st') \<Rightarrow> (Inl e, st')
      | (Inr (sid, graph), st') \<Rightarrow> buildIndexer env sid graph st')"

text \<open>
  The \<^verbatim>\<open>onInitialized\<close> callback, lines 232 to 247: \<^verbatim>\<open>postInitialize\<close>, then the new
  \<^verbatim>\<open>LSPFileEventHandler\<close> on the store and the queue the server holds at that moment,
  then \<^verbatim>\<open>addEvents\<close>, which registers the handlers below; an error is caught and
  logged. (The registration of capabilities before the \<^verbatim>\<open>try\<close> touches none of the
  fields.)
\<close>

definition onInitialized :: "env \<Rightarrow> server \<Rightarrow> server" where
  "onInitialized env st0 =
     (case postInitialize env st0 of
        (Inl e, st1) \<Rightarrow> emit ConsoleError st1
      | (Inr _, st1) \<Rightarrow>
          (case indexerSettings st1 of
             None \<Rightarrow> emit ConsoleError st1
           | Some ixs \<Rightarrow>
               (let hid = nextObj st1
                in emit (NewFileEventHandler hid (vectorStore st1) (queue st1) (indexFilter ixs))
                     ((alloc st1)\<lparr>fileEventHandler := Some hid\<rparr>))))"

text \<open>The same collaborators, but with a store that opens and gives the graph \<open>g\<close>.\<close>

definition with_open_store :: "env \<Rightarrow> obj option \<Rightarrow> env" where
  "with_open_store env g = env\<lparr>storeInitialize := (\<lambda>s. Inr (True, g))\<rparr>"

text \<open>
  The states \<^verbatim>\<open>postInitialize\<close> passes through, written out: \<open>opened st notified\<close>
  after the store is opened (\<open>notified\<close> when the failure request was sent), and
  \<open>built st sid g f indexed\<close> after the indexer, the queue and the project details handler
  are built on store \<open>sid\<close>, graph \<open>g\<close> and filter \<open>f\<close> (\<open>indexed\<close> when \<^verbatim>\<open>createIndex\<close>
  was called).
\<close>

definition opened :: "server \<Rightarrow> bool \<Rightarrow> server" where
  "opened st notified =
     st\<lparr>vectorStore := Some (nextObj st), nextObj := Suc (nextObj st),
        trace := trace st @
          [CreateAIProvider, ConsoleLog ''Wingman LSP initialized for workspace'',
           NewStore (nextObj st) (firstFolder st), StoreInitialize (nextObj st)] @
          (if notified then [SendRequest ''wingman/failedLoadingStore''] else [])\<rparr>"

definition built :: "server \<Rightarrow> obj \<Rightarrow> obj option \<Rightarrow> string \<Rightarrow> bool \<Rightarrow> server" where
  "built st sid g f indexed =
     st\<lparr>codeGraph := g, codeParser := Some (nextObj st),
        indexer := Some (Suc (Suc (nextObj st))),
        queue := Some (Suc (Suc (Suc (nextObj st)))),
        projectDetails := Some (Suc (Suc (Suc (Suc (nextObj st))))),
        nextObj := Suc (Suc (Suc (Suc (Suc (nextObj st))))),
        trace := trace st @
          [NewCodeParser (nextObj st), NewGenerator (Suc (nextObj st)),
           NewIndexer (Suc (Suc (nextObj st))) g sid f,
           NewDocumentQueue (Suc (Suc (Suc (nextObj st)))) (Suc (Suc (nextObj st))),
           NewProjectDetailsHandler (Suc (Suc (Suc (Suc (nextObj st))))),
           GenerateProjectDetails (Suc (Suc (Suc (Suc (nextObj st)))))] @
          (if indexed then [StoreCreateIndex sid] else [])\<rparr>"

text \<open>
  \<^verbatim>\<open>wingman/getIndex\<close>, lines 307 to 315. The object literal is the list of its
  properties, in the order they are written. With \<^verbatim>\<open>?.\<close> a missing store or indexer
  gives \<^verbatim>\<open>undefined\<close>; \<^verbatim>\<open>indexExists\<close> is awaited and can reject.
\<close>

definition getIndex :: "env \<Rightarrow> server \<Rightarrow> js_error + (string \<times> jsval) list" where
  "getIndex env st =
     (case (case vectorStore st of
              None \<Rightarrow> Inr JUndefined
            | Some s \<Rightarrow> (case indexExists env s of Inl e \<Rightarrow> Inl e | Inr b \<Rightarrow> Inr (JBool b))) of
        Inl e \<Rightarrow> Inl e
      | Inr ex \<Rightarrow>
          Inr [(''exists'', ex),
               (''processing'',
                  (case indexer st of None \<Rightarrow> JUndefined | Some i \<Rightarrow> JBool (isSyncing env i))),
               (''files'',
                  JStrings (case codeGraph st of None \<Rightarrow> [] | Some g \<Rightarrow> symbolTableKeys env g))])"

text \<open>
  \<^verbatim>\<open>wingman/indexerSettings\<close>, lines 317 to 341. An error of
  \<^verbatim>\<open>fileEventHandler.dispose()\<close> is caught and dropped.
\<close>

definition indexerSettingsHandler ::
  "env \<Rightarrow> IndexerSettings \<Rightarrow> server \<Rightarrow> (js_error + unit) \<times> server" where
  "indexerSettingsHandler env indexSettings st0 =
     (let st1 = (emit ClearFilterCache st0)\<lparr>indexerSettings := Some indexSettings\<rparr>;
          st2 = (case fileEventHandler st1 of
                   None \<Rightarrow> st1
                 | Some h \<Rightarrow> emit (FileEventHandlerDispose h) st1);
          hid = nextObj st2;
          st3 = emit (NewFileEventHandler hid (vectorStore st2) (queue st2) (indexFilter indexSettings))
                  ((alloc st2)\<lparr>fileEventHandler := Some hid\<rparr>)
      in case indexer st3 of
           None \<Rightarrow> (Inr (), st3)
         | Some i \<Rightarrow>
             (let st4 = emit (SetInclusionFilter i (indexFilter indexSettings)) st3
              in case setInclusionFilter env i (indexFilter indexSettings) of
                   Inl e \<Rightarrow> (Inl e, st4)
                 | Inr _ \<Rightarrow> (Inr (), emit (IndexerClearCache i) st4)))"

text \<open>
  \<^verbatim>\<open>wingman/fullIndexBuild\<close>, lines 343 to 366. The whole body stands in a
  \<^verbatim>\<open>try\<close>; the \<^verbatim>\<open>catch\<close> logs the error and the handler returns \<^verbatim>\<open>undefined\<close>.
\<close>

definition fullIndexBuild :: "env \<Rightarrow> string list \<Rightarrow> server \<Rightarrow> (js_error + unit) \<times> server" where
  "fullIndexBuild env files st0 =
     (if \<not> (case embeddingSettings st0 of None \<Rightarrow> False | Some es \<Rightarrow> enabled es)
      then (Inr (), st0)
      else
        (let st1 = emit ClearFilterCache st0;
             filePaths = map (filePathToUri env) files;
             st2 = emit (ConsoleLog ''Starting full index build'') st1;
             created = (case vectorStore st2 of
                          None \<Rightarrow> (Inr (), st2)
                        | Some s \<Rightarrow> (createIndex env s, emit (StoreCreateIndex s) st2))
         in case created of
              (Inl e, st3) \<Rightarrow> (Inr (), emit ConsoleError st3)
            | (Inr _, st3) \<Rightarrow>
                (case indexer st3 of
                   None \<Rightarrow> (Inr (), st3)
                 | Some i \<Rightarrow>
                     (let st4 = emit (ProcessDocuments i filePaths True) st3
                      in case processDocuments env i filePaths True of
                           Inl e \<Rightarrow> (Inr (), emit ConsoleError st4)
                         | Inr _ \<Rightarrow> (Inr (), st4)))))"

text \<open>
  \<^verbatim>\<open>wingman/deleteIndex\<close>, lines 368 to 373. \<^verbatim>\<open>deleteIndex\<close> of the store is called
  and not awaited, \<^verbatim>\<open>dispose\<close> of the queue is called, and \<^verbatim>\<open>postInitialize\<close> is
  awaited.
\<close>

definition deleteIndex :: "env \<Rightarrow> server \<Rightarrow> (js_error + unit) \<times> server" where
  "deleteIndex env st0 =
     (let st1 = emit (ConsoleLog ''Received request to delete index'') st0;
          st2 = (case vectorStore st1 of None \<Rightarrow> st1 | Some s \<Rightarrow> emit (StoreDeleteIndex s) st1);
          st3 = (case queue st2 of None \<Rightarrow> st2 | Some q \<Rightarrow> emit (QueueDispose q) st2)
      in postInitialize env st3)"

text \<open>
  \<^verbatim>\<open>wingman/getEmbeddings\<close>, lines 412 to 447. \<open>caught\<close> is the \<^verbatim>\<open>catch\<close> block
  followed by the last \<^verbatim>\<open>return\<close>. Inside the \<^verbatim>\<open>try\<close>, the query and the project
  details are awaited, \<^verbatim>\<open>docs?.relatedCodeDocs.length\<close> is logged, and
  \<^verbatim>\<open>docs.relatedCodeDocs\<close> throws when \<^verbatim>\<open>docs\<close> is undefined. The query is called with
  \<^verbatim>\<open>k = 3\<close>.
\<close>

definition getEmbeddingsFallback :: EmbeddingsResponse where
  "getEmbeddingsFallback = \<lparr>codeDocs = [], er_projectDetails = Some []\<rparr>"

definition caught :: "server \<Rightarrow> (js_error + EmbeddingsResponse) \<times> server" where
  "caught st = (Inr getEmbeddingsFallback, emit ConsoleError st)"

definition getEmbeddings ::
  "env \<Rightarrow> string \<Rightarrow> server \<Rightarrow> (js_error + EmbeddingsResponse) \<times> server" where
  "getEmbeddings env query st0 =
     (let st1 = emit (ConsoleLog (''Received request for embeddings: '' @ query)) st0
      in case retrieveDocumentsWithRelatedCode env query (codeGraph st1) (vectorStore st1)
                (firstFolder st1) 3 of
           Inl e \<Rightarrow> caught st1
         | Inr docs \<Rightarrow>
             (case (case projectDetails st1 of
                      None \<Rightarrow> Inr None
                    | Some h \<Rightarrow> retrieveProjectDetails env h) of
                Inl e \<Rightarrow> caught st1
              | Inr details \<Rightarrow>
                  (let st2 = emit (ConsoleLog ''Found related documents'') st1
                   in case docs of
                        None \<Rightarrow> caught st2
                      | Some d \<Rightarrow>
                          (Inr \<lparr>codeDocs = relatedCodeDocs d,
                                er_projectDetails = map_option pd_description details\<rparr>,
                           st2))))"

section \<open>The indexer, as the specification describes it\<close>

text \<open>
  Modelled from the spec: the state the \<^verbatim>\<open>Indexer\<close> works on and its methods
  \<^verbatim>\<open>setInclusionFilter\<close> and \<^verbatim>\<open>clearCache\<close>; \<^verbatim>\<open>src/server/files/indexer.ts\<close> is missing,
  only the calls in \<^verbatim>\<open>index.ts\<close> are among the sources. Section 3 of the specification
  gives the data: File Records (content hash, language id, symbols) by path, Graph nodes
  with their outgoing edges by path, Vector Entries (chunk identifier, file path,
  embedding), and the Index State with the inclusion filter and the cache from paths to
  content hashes. Section 4.3: \<^verbatim>\<open>setInclusionFilter\<close> "replaces the predicate used to
  accept/reject paths during scans", \<^verbatim>\<open>clearCache\<close> "drops the in-memory hash cache".
\<close>

record FileRecord =
  fr_hash :: string
  fr_languageId :: string
  fr_symbols :: "string list"

record 'v VectorEntry =
  ve_chunk :: string
  ve_path :: string
  ve_vector :: 'v

record 'v index_state =
  ix_filter :: string
  ix_cache :: "(string \<times> string) list"
  ix_records :: "(string \<times> FileRecord) list"
  ix_nodes :: "(string \<times> string list) list"
  ix_entries :: "'v VectorEntry list"

definition Indexer_setInclusionFilter :: "string \<Rightarrow> 'v index_state \<Rightarrow> 'v index_state" where
  "Indexer_setInclusionFilter f ix = ix\<lparr>ix_filter := f\<rparr>"

definition Indexer_clearCache :: "'v index_state \<Rightarrow> 'v index_state" where
  "Indexer_clearCache ix = ix\<lparr>ix_cache := []\<rparr>"

text \<open>
  Modelled from the spec: what a call recorded in the trace does to the index. The two
  indexer calls are the methods above. \<^verbatim>\<open>clearFilterCache\<close> of \<^verbatim>\<open>files/utils\<close> and the
  File Event Handler (section 2: it "watches the filesystem/editor and enqueues change
  notifications") hold no indexed state, and neither does the console. For every other
  call the effect is left open (\<open>None\<close>).
\<close>

fun event_effect :: "event \<Rightarrow> 'v index_state \<Rightarrow> 'v index_state option" where
  "event_effect (SetInclusionFilter i f) ix = Some (Indexer_setInclusionFilter f ix)"
| "event_effect (IndexerClearCache i) ix = Some (Indexer_clearCache ix)"
| "event_effect ClearFilterCache ix = Some ix"
| "event_effect (FileEventHandlerDispose h) ix = Some ix"
| "event_effect (NewFileEventHandler h s q f) ix = Some ix"
| "event_effect (ConsoleLog m) ix = Some ix"
| "event_effect ConsoleError ix = Some ix"
| "event_effect _ ix = None"

fun run_events :: "event list \<Rightarrow> 'v index_state \<Rightarrow> 'v index_state option" where
  "run_events [] ix = Some ix"
| "run_events (ev # evs) ix =
     (case event_effect ev ix of None \<Rightarrow> None | Some ix' \<Rightarrow> run_events evs ix')"

text \<open>
  Modelled from the spec: which paths a pass of \<^verbatim>\<open>Indexer.processDocuments\<close> embeds
  again; \<^verbatim>\<open>src/server/files/indexer.ts\<close> is missing. Section 4.3: "for each path, skip
  it if \<^verbatim>\<open>forceFull\<close> is false and its current content hash matches the cache; otherwise
  parse, embed via Generator, upsert into Code Graph and Vector Store, and update the
  cache entry". \<open>hashOf\<close> gives the current content hash of a path, \<open>cache\<close> is the hash
  cache. \<open>event_reembeds\<close> reads the pass off a call recorded in the trace.
\<close>

definition Indexer_processDocuments ::
  "(string \<Rightarrow> string) \<Rightarrow> (string \<times> string) list \<Rightarrow> string list \<Rightarrow> bool \<Rightarrow> string list" where
  "Indexer_processDocuments hashOf cache paths forceFull =
     filter (\<lambda>p. \<not> (\<not> forceFull \<and> map_of cache p = Some (hashOf p))) paths"

fun event_reembeds :: "(string \<Rightarrow> string) \<Rightarrow> (string \<times> string) list \<Rightarrow> event \<Rightarrow> string list" where
  "event_reembeds hashOf cache (ProcessDocuments i uris full) =
     Indexer_processDocuments hashOf cache uris full"
| "event_reembeds hashOf cache _ = []"

section \<open>Example inputs\<close>

text \<open>Answers of the chat model: one without any section, one whose STEPS section is
  never closed, and a well-formed FILE section for the path \<^verbatim>\<open>b.ts\<close>.\<close>

definition resp_plain :: string where
  "resp_plain = ''I could not find anything to change.''"

definition resp_open :: string where
  "resp_open = ''===STEPS_START==='' @ [nl] @ ''---STEP---'' @ [nl] @ ''Description: run it''
               @ [nl] @ ''---END_STEP---''"

definition resp_b :: string where
  "resp_b = ''===FILE_START==='' @ [nl] @ ''Path: b.ts'' @ [nl] @ ''Changes:'' @ [nl] @ ''- x''
            @ [nl] @ ''===FILE_END===''"

definition writer_b :: writer_env where
  "writer_b =
     \<lparr>loadWingmanRules = Inr (), buildObjective = Inr (),
      invokeModel = (\<lambda>i. Inr resp_b), dispatchCustomEvent = (\<lambda>name i. Inr ())\<rparr>"

definition state_a :: PlanExecuteState where
  "state_a = \<lparr>plan = Some \<lparr>pl_files = Some [\<lparr>fm_path = ''a.ts'', fm_code = None,
                 fm_language = None, fm_changes = None\<rparr>], pl_summary = None\<rparr>\<rparr>"

definition state_b :: PlanExecuteState where
  "state_b = \<lparr>plan = Some \<lparr>pl_files = Some [\<lparr>fm_path = ''b.ts'', fm_code = None,
                 fm_language = None, fm_changes = None\<rparr>], pl_summary = None\<rparr>\<rparr>"

text \<open>Collaborators that all succeed, a store that fails to open, a query that throws.\<close>

definition env0 :: env where
  "env0 =
     \<lparr>storeInitialize = (\<lambda>s. Inr (True, Some 0)),
      sendRequest = (\<lambda>m. Inr ()),
      generateProjectDetails = (\<lambda>h. Inr ()),
      createIndex = (\<lambda>s. Inr ()),
      indexExists = (\<lambda>s. Inr True),
      isSyncing = (\<lambda>i. False),
      symbolTableKeys = (\<lambda>g. [''/ws/a.ts'']),
      filePathToUri = (\<lambda>p. ''file://'' @ p),
      processDocuments = (\<lambda>i uris full. Inr ()),
      setInclusionFilter = (\<lambda>i f. Inr ()),
      retrieveDocumentsWithRelatedCode =
        (\<lambda>q g s w k. Inr (Some \<lparr>relatedCodeDocs = [''/ws/a.ts'']\<rparr>)),
      retrieveProjectDetails = (\<lambda>h. Inr (Some \<lparr>pd_description = ''a project''\<rparr>))\<rparr>"

definition env_store_fails :: env where
  "env_store_fails = env0\<lparr>storeInitialize := (\<lambda>s. Inr (False, None))\<rparr>"

definition env_query_throws :: env where
  "env_query_throws =
     env0\<lparr>retrieveDocumentsWithRelatedCode := (\<lambda>q g s w k. Inl (Rejected ''no index''))\<rparr>"

text \<open>A server before \<^verbatim>\<open>postInitialize\<close>, one after it, and one with embeddings disabled.\<close>

definition server_fresh :: server where
  "server_fresh =
     \<lparr>workspaceFolders = [''/ws''], vectorStore = None, codeParser = None, codeGraph = None,
      queue = None, indexer = None, projectDetails = None, fileEventHandler = None,
      embeddingSettings = Some \<lparr>enabled = True\<rparr>,
      indexerSettings = Some \<lparr>indexFilter = ''**/*.ts''\<rparr>,
      nextObj = 0, trace = []\<rparr>"

definition server_ready :: server where
  "server_ready =
     \<lparr>workspaceFolders = [''/ws''], vectorStore = Some 0, codeParser = Some 1, codeGraph = Some 0,
      queue = Some 4, indexer = Some 3, projectDetails = Some 5, fileEventHandler = Some 6,
      embeddingSettings = Some \<lparr>enabled = True\<rparr>,
      indexerSettings = Some \<lparr>indexFilter = ''**/*.ts''\<rparr>,
      nextObj = 7, trace = []\<rparr>"

text \<open>The server after \<^verbatim>\<open>onInitialized\<close>, from the fresh one.\<close>

definition server_initialized :: server where
  "server_initialized = onInitialized env0 server_fresh"

definition server_disabled :: server where
  "server_disabled = server_ready\<lparr>embeddingSettings := Some \<lparr>enabled = False\<rparr>\<rparr>"

text \<open>An index with one Markdown file.\<close>

definition index0 :: "nat index_state" where
  "index0 =
     \<lparr>ix_filter = ''**/*'', ix_cache = [(''/ws/a.md'', ''h1'')],
      ix_records = [(''/ws/a.md'', \<lparr>fr_hash = ''h1'', fr_languageId = ''markdown'', fr_symbols = []\<rparr>)],
      ix_nodes = [(''/ws/a.md'', [])],
      ix_entries = [\<lparr>ve_chunk = ''/ws/a.md'', ve_path = ''/ws/a.md'', ve_vector = 1\<rparr>]\<rparr>"

section \<open>Properties of \<^verbatim>\<open>parseResponse\<close>\<close>

lemma cut_at_decomp: "cut_at sep s = Some (b, a) \<Longrightarrow> s = b @ sep @ a"
proof (induction s arbitrary: b)
  case Nil
  then show ?case by (simp split: if_splits)
next
  case (Cons c cs)
  show ?case
  proof (cases "prefix sep (c # cs)")
    case True
    with Cons.prems have "b = []" "a = drop (length sep) (c # cs)" by simp_all
    moreover from True have "c # cs = sep @ drop (length sep) (c # cs)"
      by (metis append_eq_conv_conj prefix_def)
    ultimately show ?thesis by simp
  next
    case False
    with Cons.prems obtain b' where "cut_at sep cs = Some (b', a)" "b = c # b'"
      by (auto split: option.splits)
    with Cons.IH show ?thesis by simp
  qed
qed

lemma split_acc_nonempty: "split_acc sep acc s \<noteq> []"
  by (induction sep acc s rule: split_acc.induct) simp_all

lemma split_str_nonempty: "sep \<noteq> [] \<Longrightarrow> split_str sep s \<noteq> []"
  by (simp add: split_str_def split_acc_nonempty)

lemma map_result_total:
  "(\<And>x. x \<in> set xs \<Longrightarrow> \<exists>y. f x = Inr y) \<Longrightarrow> \<exists>ys. map_result f xs = Inr ys"
proof (induction xs)
  case Nil
  show ?case by simp
next
  case (Cons x xs)
  from Cons.prems obtain y where "f x = Inr y" by auto
  moreover from Cons obtain ys where "map_result f xs = Inr ys" by auto
  ultimately show ?case by simp
qed

lemma first_trim_split: "sep \<noteq> [] \<Longrightarrow> \<exists>y. first_trim (split_str sep s) = Inr y"
  using split_str_nonempty [of sep s]
  by (cases "split_str sep s") (simp_all add: first_trim_def)

lemma parseSteps_total: "\<exists>ss. parseSteps c = Inr ss"
proof (cases "c = []")
  case True
  then show ?thesis by (simp add: parseSteps_def)
next
  case False
  have "\<exists>bs. map_result (\<lambda>block. first_trim (split_str STEP_END block))
                (filter (\<lambda>block. trim block \<noteq> []) (split_str STEP_START c)) = Inr bs"
    by (rule map_result_total) (simp add: first_trim_split STEP_END_def)
  then show ?thesis using False by (auto simp: parseSteps_def)
qed

lemma parseResponse_returns: "\<exists>r. parseResponse s = Inr r"
proof -
  obtain ss where "parseSteps (extractSection STEPS_START STEPS_END s) = Inr ss"
    using parseSteps_total by blast
  then show ?thesis by (simp add: parseResponse_def)
qed

lemma extractSection_nonempty:
  assumes "extractSection start fin s \<noteq> []"
  shows "\<exists>a b c. s = a @ start @ [nl] @ b @ [nl] @ fin @ c"
proof -
  from assms obtain a rest where 1: "cut_at (start @ [nl]) s = Some (a, rest)"
    by (auto simp: extractSection_def split: option.splits)
  with assms obtain b c where 2: "cut_at (nl # fin) rest = Some (b, c)"
    by (auto simp: extractSection_def split: option.splits)
  from cut_at_decomp [OF 1] cut_at_decomp [OF 2]
  have "s = a @ start @ [nl] @ b @ [nl] @ fin @ c" by simp
  then show ?thesis by blast
qed

lemma no_section:
  assumes "\<not> sublist fin s"
  shows "\<nexists>a b c. s = a @ start @ [nl] @ b @ [nl] @ fin @ c"
proof
  assume "\<exists>a b c. s = a @ start @ [nl] @ b @ [nl] @ fin @ c"
  then obtain a b c where "s = (a @ start @ [nl] @ b @ [nl]) @ fin @ c" by auto
  then have "sublist fin s" unfolding sublist_def by blast
  with assms show False by simp
qed

text \<open>
  C8. \<^verbatim>\<open>parseResponse\<close> returns a \<^verbatim>\<open>CodeResponse\<close> for every input string and never
  throws. When the input has no well-formed STEPS section (the start delimiter, a line
  feed, any text, a line feed, the end delimiter) the steps are empty, and when it has no
  well-formed FILE section the file has the empty path, code and language and an empty
  list of changes.
\<close>

theorem parseResponse_total:
  "\<exists>r. parseResponse s = Inr r \<and>
       ((\<nexists>a b c. s = a @ STEPS_START @ [nl] @ b @ [nl] @ STEPS_END @ c) \<longrightarrow> steps r = []) \<and>
       ((\<nexists>a b c. s = a @ FILE_START @ [nl] @ b @ [nl] @ FILE_END @ c) \<longrightarrow>
          file' r = \<lparr>path = [], code = [], markdownLanguage = [], changes = Some []\<rparr>)"
proof -
  obtain ss where ss: "parseSteps (extractSection STEPS_START STEPS_END s) = Inr ss"
    using parseSteps_total by blast
  let ?r = "\<lparr>steps = ss, file' = parseFile (extractSection FILE_START FILE_END s)\<rparr>"
  have r: "parseResponse s = Inr ?r"
    by (simp add: parseResponse_def ss)
  have st: "steps ?r = []" if "\<nexists>a b c. s = a @ STEPS_START @ [nl] @ b @ [nl] @ STEPS_END @ c"
  proof -
    from that have "extractSection STEPS_START STEPS_END s = []"
      using extractSection_nonempty by blast
    with ss show ?thesis by (simp add: parseSteps_def)
  qed
  have fl: "file' ?r = \<lparr>path = [], code = [], markdownLanguage = [], changes = Some []\<rparr>"
    if "\<nexists>a b c. s = a @ FILE_START @ [nl] @ b @ [nl] @ FILE_END @ c"
  proof -
    from that have "extractSection FILE_START FILE_END s = []"
      using extractSection_nonempty by blast
    then show ?thesis by (simp add: parseFile_def)
  qed
  from r st fl show ?thesis by blast
qed

theorem parseResponse_total_witness:
  "(\<nexists>a b c. resp_open = a @ STEPS_START @ [nl] @ b @ [nl] @ STEPS_END @ c) \<and>
   (\<nexists>a b c. resp_open = a @ FILE_START @ [nl] @ b @ [nl] @ FILE_END @ c) \<and>
   parseResponse resp_open =
     Inr \<lparr>steps = [],
          file' = \<lparr>path = [], code = [], markdownLanguage = [], changes = Some []\<rparr>\<rparr>"
proof -
  have "\<not> sublist STEPS_END resp_open" by code_simp
  then have 1: "\<nexists>a b c. resp_open = a @ STEPS_START @ [nl] @ b @ [nl] @ STEPS_END @ c"
    by (rule no_section)
  have "\<not> sublist FILE_END resp_open" by code_simp
  then have 2: "\<nexists>a b c. resp_open = a @ FILE_START @ [nl] @ b @ [nl] @ FILE_END @ c"
    by (rule no_section)
  from parseResponse_total [of resp_open] 1 2
  obtain r where "parseResponse resp_open = Inr r" "steps r = []"
    "file' r = \<lparr>path = [], code = [], markdownLanguage = [], changes = Some []\<rparr>"
    by blast
  then have "parseResponse resp_open =
     Inr \<lparr>steps = [],
          file' = \<lparr>path = [], code = [], markdownLanguage = [], changes = Some []\<rparr>\<rparr>"
    by (cases r) simp
  with 1 2 show ?thesis by blast
qed

section \<open>Properties of \<^verbatim>\<open>codeWriterStep\<close>\<close>

lemma find_idx_None: "find_idx P xs = None \<longleftrightarrow> (\<forall>x \<in> set xs. \<not> P x)"
  by (induction xs) (auto split: option.splits)

lemma find_idx_Some: "find_idx P xs = Some j \<Longrightarrow> j < length xs \<and> P (xs ! j)"
  by (induction xs arbitrary: j) (auto split: if_splits option.splits)

lemma writer_body_cases [consumes 1, case_names skip push]:
  assumes "writer_body w i s = Inr s'"
  obtains (skip) result :: CodeResponse where "s' = s\<lparr>stepsAcc := stepsAcc s @ steps result\<rparr>"
      "filesAcc s \<noteq> [] \<or> \<not> accepted w (statePaths s) i"
    | (push) out result pf j where "invokeModel w i = Inr out" "parseResponse out = Inr result"
      "fileChanged result" "planFiles s = Some pf"
      "find_idx (\<lambda>f. fm_path f = path (file' result)) pf = Some j"
      "s' = s\<lparr>stepsAcc := stepsAcc s @ steps result,
              planFiles := Some (pf[j := (pf ! j)
                 \<lparr>fm_language := Some (markdownLanguage (file' result)),
                  fm_code := Some (code (file' result)),
                  fm_changes := Some (case changes (file' result) of None \<Rightarrow> [] | Some cs \<Rightarrow> cs)\<rparr>]),
              filesAcc := filesAcc s @ [j]\<rparr>"
proof -
  from assms obtain out where out: "invokeModel w i = Inr out"
    by (auto simp: writer_body_def split: sum.splits)
  with assms obtain result where res: "parseResponse out = Inr result"
    by (auto simp: writer_body_def split: sum.splits)
  with assms out obtain u where d1: "dispatchCustomEvent w ''composer-manual-steps'' i = Inr u"
    by (auto simp: writer_body_def Let_def split: sum.splits)
  let ?s1 = "s\<lparr>stepsAcc := stepsAcc s @ steps result\<rparr>"
  let ?c = "\<not> list_ex (\<lambda>f. fm_path f = path (file' result)) (listed ?s1) \<and> fileChanged result"
  show thesis
  proof (cases ?c)
    case False
    with assms out res d1 have s': "s' = ?s1" by (simp add: writer_body_def Let_def)
    have "filesAcc s \<noteq> [] \<or> \<not> accepted w (statePaths s) i"
    proof (cases "filesAcc s = []")
      case True
      then have "listed ?s1 = []" by (simp add: listed_def split: option.splits)
      with False have "\<not> fileChanged result" by simp
      then show ?thesis by (simp add: accepted_def out res)
    qed simp
    with s' show thesis using skip by blast
  next
    case True
    show thesis
    proof (cases "planFiles s")
      case None
      with assms out res d1 True have s': "s' = ?s1" by (simp add: writer_body_def Let_def)
      from None have "\<not> accepted w (statePaths s) i"
        by (simp add: accepted_def statePaths_def out res)
      with s' show thesis using skip by blast
    next
      case (Some pf)
      show thesis
      proof (cases "find_idx (\<lambda>f. fm_path f = path (file' result)) pf")
        case None
        with assms out res d1 True Some have s': "s' = ?s1"
          by (simp add: writer_body_def Let_def)
        from None have "path (file' result) \<notin> set (map fm_path pf)"
          by (auto simp: find_idx_None)
        then have "\<not> accepted w (statePaths s) i"
          by (simp add: accepted_def statePaths_def out res Some)
        with s' show thesis using skip by blast
      next
        case (Some j)
        with assms out res d1 True \<open>planFiles s = Some pf\<close>
        have "s' = s\<lparr>stepsAcc := stepsAcc s @ steps result,
              planFiles := Some (pf[j := (pf ! j)
                 \<lparr>fm_language := Some (markdownLanguage (file' result)),
                  fm_code := Some (code (file' result)),
                  fm_changes := Some (case changes (file' result) of None \<Rightarrow> [] | Some cs \<Rightarrow> cs)\<rparr>]),
              filesAcc := filesAcc s @ [j]\<rparr>"
          by (simp add: writer_body_def Let_def split: sum.splits)
        with out res True \<open>planFiles s = Some pf\<close> Some show thesis using push by blast
      qed
    qed
  qed
qed

lemma writer_body_paths:
  assumes "writer_body w i s = Inr s'"
  shows "statePaths s' = statePaths s"
  using assms
proof (cases rule: writer_body_cases)
  case (skip result)
  then show ?thesis by (simp add: statePaths_def)
next
  case (push out result pf j)
  have "map fm_path (pf[j := (pf ! j)\<lparr>fm_language := l, fm_code := c, fm_changes := ch\<rparr>])
          = map fm_path pf" for l c ch
    by (simp add: map_update) (metis list_update_id map_update)
  with push show ?thesis by (simp add: statePaths_def)
qed

lemma writer_body_listed_ok:
  assumes "writer_body w i s = Inr s'" and "listed_ok s"
  shows "listed_ok s'"
  using assms(1)
proof (cases rule: writer_body_cases)
  case (skip result)
  with assms(2) show ?thesis by (simp add: listed_ok_def split: option.splits)
next
  case (push out result pf j)
  from push(3) obtain cs where cs: "changes (file' result) = Some cs" "cs \<noteq> []"
    by (auto simp: fileChanged_def split: option.splits)
  from find_idx_Some [OF push(5)] have j: "j < length pf" by simp
  from assms(2) push(4)
  have old: "list_all (\<lambda>k. k < length pf \<and>
                (case fm_changes (pf ! k) of None \<Rightarrow> False | Some cs \<Rightarrow> cs \<noteq> [])) (filesAcc s)"
    by (simp add: listed_ok_def)
  show ?thesis
    using old j cs
    by (auto simp: push(6) listed_ok_def list_all_iff nth_list_update)
qed

lemma writer_body_files:
  assumes "writer_body w i s = Inr s'"
  shows "filesAcc s' \<noteq> [] \<longleftrightarrow> filesAcc s \<noteq> [] \<or> accepted w (statePaths s) i"
  using assms
proof (cases rule: writer_body_cases)
  case (skip result)
  then show ?thesis by auto
next
  case (push out result pf j)
  from find_idx_Some [OF push(5)] have "path (file' result) \<in> set (map fm_path pf)"
    by (metis (mono_tags, lifting) image_eqI list.set_map nth_mem)
  then have "accepted w (statePaths s) i"
    by (simp add: accepted_def statePaths_def push)
  then show ?thesis by (simp add: push(6))
qed

lemma writer_loop_invariant:
  assumes "writer_loop w is s = Inr s'" and "listed_ok s"
  shows "listed_ok s' \<and> statePaths s' = statePaths s \<and>
         (filesAcc s' \<noteq> [] \<longleftrightarrow> filesAcc s \<noteq> [] \<or> (\<exists>i \<in> set is. accepted w (statePaths s) i))"
  using assms
proof (induction "is" arbitrary: s)
  case Nil
  then show ?case by simp
next
  case (Cons i "is")
  from Cons.prems(1) obtain s1 where b: "writer_body w i s = Inr s1"
    and l: "writer_loop w is s1 = Inr s'"
    by (auto split: sum.splits)
  from writer_body_listed_ok [OF b Cons.prems(2)] have ok1: "listed_ok s1" .
  from Cons.IH [OF l ok1] writer_body_paths [OF b] writer_body_files [OF b]
  show ?case by auto
qed

lemma writer_body_total:
  assumes "invokeModel w i = Inr out" and "\<forall>name k. dispatchCustomEvent w name k = Inr ()"
  shows "\<exists>s'. writer_body w i s = Inr s'"
proof -
  from parseResponse_returns [of out] obtain r where "parseResponse out = Inr r" by blast
  with assms show ?thesis
    by (simp add: writer_body_def Let_def split: option.splits)
qed

lemma writer_loop_total:
  assumes "\<forall>i \<in> set is. \<exists>out. invokeModel w i = Inr out"
    and "\<forall>name k. dispatchCustomEvent w name k = Inr ()"
  shows "\<exists>s'. writer_loop w is s = Inr s'"
  using assms(1)
proof (induction "is" arbitrary: s)
  case Nil
  show ?case by simp
next
  case (Cons i "is")
  then obtain out where "invokeModel w i = Inr out" by auto
  from writer_body_total [OF this assms(2), of s]
  obtain s1 where "writer_body w i s = Inr s1" by blast
  with Cons show ?case by simp
qed

text \<open>
  C9, as amended. Provided every call outside the function resolves (the rules and the
  objective are built, every call of the chat model and every dispatch of an event
  resolves), \<^verbatim>\<open>codeWriterStep\<close> throws \<^verbatim>\<open>NoFilesChangedError\<close> exactly when no
  answer was accepted, that is when no answer reported a non-empty list of changes for
  the path of a planned file; otherwise it resolves, with a plan that lists at least one
  file and in which every file has a non-empty list of changes and the path of a
  planned file.
\<close>

theorem codeWriterStep_outcome:
  assumes "loadWingmanRules w = Inr ()" and "buildObjective w = Inr ()"
    and "\<forall>i < iterations state. \<exists>out. invokeModel w i = Inr out"
    and "\<forall>name k. dispatchCustomEvent w name k = Inr ()"
  shows "(codeWriterStep w state = Inl NoFilesChangedError \<longleftrightarrow>
            \<not> (\<exists>i < iterations state. accepted w (planPaths state) i)) \<and>
         ((\<exists>i < iterations state. accepted w (planPaths state) i) \<longrightarrow>
            (\<exists>p. codeWriterStep w state = Inr p \<and> up_files p \<noteq> [] \<and>
               (\<forall>f \<in> set (up_files p).
                  (\<exists>cs. fm_changes f = Some cs \<and> cs \<noteq> []) \<and>
                  fm_path f \<in> set (planPaths state))))"
proof -
  let ?s0 = "\<lparr>planFiles = stateFiles state, filesAcc = [], stepsAcc = []\<rparr>"
  from assms(3) have "\<forall>i \<in> set [0 ..< iterations state]. \<exists>out. invokeModel w i = Inr out"
    by simp
  from writer_loop_total [OF this assms(4)]
  obtain s where loop: "writer_loop w [0 ..< iterations state] ?s0 = Inr s" by blast
  have ok0: "listed_ok ?s0" by (simp add: listed_ok_def split: option.splits)
  have p0: "statePaths ?s0 = planPaths state" by (simp add: statePaths_def planPaths_def)
  from writer_loop_invariant [OF loop ok0] p0
  have ok: "listed_ok s" and paths: "statePaths s = planPaths state"
    and ne: "filesAcc s \<noteq> [] \<longleftrightarrow> (\<exists>i < iterations state. accepted w (planPaths state) i)"
    by auto
  have listed: "(\<exists>cs. fm_changes f = Some cs \<and> cs \<noteq> []) \<and> fm_path f \<in> set (planPaths state)"
    if "f \<in> set (listed s)" for f
  proof (cases "planFiles s")
    case None
    with that show ?thesis by (simp add: listed_def)
  next
    case (Some pf)
    with that obtain j where j: "j \<in> set (filesAcc s)" "f = pf ! j" by (auto simp: listed_def)
    with ok Some have "j < length pf" and
      "(case fm_changes (pf ! j) of None \<Rightarrow> False | Some cs \<Rightarrow> cs \<noteq> [])"
      by (auto simp: listed_ok_def list_all_iff)
    moreover from paths Some have "planPaths state = map fm_path pf" by (simp add: statePaths_def)
    ultimately show ?thesis using j by (auto split: option.splits)
  qed
  have nonempty: "listed s \<noteq> []" if "filesAcc s \<noteq> []"
  proof (cases "planFiles s")
    case None
    with ok that show ?thesis by (simp add: listed_ok_def)
  next
    case (Some pf)
    with that show ?thesis by (simp add: listed_def)
  qed
  have res: "codeWriterStep w state =
      (if filesAcc s = [] then Inl NoFilesChangedError
       else Inr \<lparr>up_files = listed s,
                 up_summary =
                   (case plan state of
                      None \<Rightarrow> []
                    | Some p \<Rightarrow> (case pl_summary p of None \<Rightarrow> [] | Some t \<Rightarrow> t)),
                 up_steps = stepsAcc s\<rparr>)"
    using assms(1,2,4) loop by (simp add: codeWriterStep_def)
  show ?thesis
  proof (cases "filesAcc s = []")
    case True
    with res ne show ?thesis by simp
  next
    case False
    with res ne listed nonempty show ?thesis by auto
  qed
qed

theorem codeWriterStep_outcome_witness:
  "loadWingmanRules writer_b = Inr () \<and> buildObjective writer_b = Inr () \<and>
   iterations state_b = 1 \<and> invokeModel writer_b 0 = Inr resp_b \<and>
   accepted writer_b (planPaths state_b) 0 \<and>
   codeWriterStep writer_b state_b \<noteq> Inl NoFilesChangedError \<and>
   codeWriterStep writer_b state_b =
     Inr \<lparr>up_files = [\<lparr>fm_path = ''b.ts'', fm_code = Some [], fm_language = Some [],
                        fm_changes = Some [''x'']\<rparr>],
          up_summary = [], up_steps = []\<rparr>"
proof -
  have a: "loadWingmanRules writer_b = Inr ()" and b: "buildObjective writer_b = Inr ()"
    and c: "\<forall>i < iterations state_b. \<exists>out. invokeModel writer_b i = Inr out"
    and d: "\<forall>name k. dispatchCustomEvent writer_b name k = Inr ()"
    and m: "invokeModel writer_b 0 = Inr resp_b"
    by (simp_all add: writer_b_def)
  have n: "iterations state_b = 1"
    by (simp add: iterations_def stateFiles_def state_b_def)
  have acc: "accepted writer_b (planPaths state_b) 0" by code_simp
  from codeWriterStep_outcome [OF a b c d] n acc
  have ne: "codeWriterStep writer_b state_b \<noteq> Inl NoFilesChangedError" by auto
  have v: "codeWriterStep writer_b state_b =
     Inr \<lparr>up_files = [\<lparr>fm_path = ''b.ts'', fm_code = Some [], fm_language = Some [],
                        fm_changes = Some [''x'']\<rparr>],
          up_summary = [], up_steps = []\<rparr>"
    by code_simp
  from a b n m acc ne v show ?thesis by simp
qed

text \<open>
  C9 as stated fails: the plan holds \<^verbatim>\<open>a.ts\<close>, the answer reports the change \<^verbatim>\<open>x\<close> for
  \<^verbatim>\<open>b.ts\<close>, and \<^verbatim>\<open>NoFilesChangedError\<close> is thrown although an answer produced a file
  with a non-empty list of changes.
\<close>

theorem codeWriterStep_counterexample:
  "parseResponse resp_b =
     Inr \<lparr>steps = [],
          file' = \<lparr>path = ''b.ts'', code = [], markdownLanguage = [], changes = Some [''x'']\<rparr>\<rparr> \<and>
   codeWriterStep writer_b state_a = Inl NoFilesChangedError"
  by code_simp

section \<open>Properties of \<^verbatim>\<open>handleUserInput\<close>\<close>

text \<open>
  C10. A key-down event submits iff the key is Enter, Shift is not held and the text area
  is non-empty. Then \<^verbatim>\<open>onChatSubmitted\<close> is called exactly once, with the current value,
  the default action is prevented and the value becomes the empty string. In every other
  case (Shift+Enter, an empty value, another key) nothing changes: no call, same value.
\<close>

theorem handleUserInput_submits_iff:
  "(key e = ''Enter'' \<and> shiftKey e \<noteq> Some True \<and> el_value d \<noteq> [] \<longrightarrow>
      submitted (handleUserInput e d) = submitted d @ [el_value d] \<and>
      defaultPrevented (handleUserInput e d) \<and>
      el_value (handleUserInput e d) = []) \<and>
   (\<not> (key e = ''Enter'' \<and> shiftKey e \<noteq> Some True \<and> el_value d \<noteq> []) \<longrightarrow>
      handleUserInput e d = d)"
  by (simp add: handleUserInput_def Let_def)

theorem handleUserInput_submits_iff_witness:
  "submitted (handleUserInput \<lparr>key = ''Enter'', shiftKey = Some False\<rparr>
      \<lparr>el_value = ''hi'', defaultPrevented = False, submitted = []\<rparr>) = [''hi''] \<and>
   el_value (handleUserInput \<lparr>key = ''Enter'', shiftKey = Some False\<rparr>
      \<lparr>el_value = ''hi'', defaultPrevented = False, submitted = []\<rparr>) = [] \<and>
   handleUserInput \<lparr>key = ''Enter'', shiftKey = Some True\<rparr>
      \<lparr>el_value = ''hi'', defaultPrevented = False, submitted = []\<rparr>
     = \<lparr>el_value = ''hi'', defaultPrevented = False, submitted = []\<rparr> \<and>
   handleUserInput \<lparr>key = ''a'', shiftKey = Some False\<rparr>
      \<lparr>el_value = ''hi'', defaultPrevented = False, submitted = []\<rparr>
     = \<lparr>el_value = ''hi'', defaultPrevented = False, submitted = []\<rparr>"
  using handleUserInput_submits_iff
          [of "\<lparr>key = ''Enter'', shiftKey = Some False\<rparr>"
              "\<lparr>el_value = ''hi'', defaultPrevented = False, submitted = []\<rparr>"]
        handleUserInput_submits_iff
          [of "\<lparr>key = ''Enter'', shiftKey = Some True\<rparr>"
              "\<lparr>el_value = ''hi'', defaultPrevented = False, submitted = []\<rparr>"]
        handleUserInput_submits_iff
          [of "\<lparr>key = ''a'', shiftKey = Some False\<rparr>"
              "\<lparr>el_value = ''hi'', defaultPrevented = False, submitted = []\<rparr>"]
  by simp

section \<open>Properties of the language server\<close>

lemmas server_defs = emit_def alloc_def firstFolder_def Let_def

subsection \<open>\<^verbatim>\<open>postInitialize\<close>, one outcome of the collaborators at a time\<close>

lemma openStore_ok:
  "storeInitialize env (nextObj st) = Inr (True, g) \<Longrightarrow>
     openStore env st = (Inr (nextObj st, g), opened st False)"
  by (simp add: openStore_def opened_def server_defs)

lemma openStore_rejected:
  "storeInitialize env (nextObj st) = Inr (False, g) \<Longrightarrow>
   sendRequest env ''wingman/failedLoadingStore'' = Inl e \<Longrightarrow>
     openStore env st = (Inl e, opened st True)"
  by (simp add: openStore_def opened_def server_defs)

lemma openStore_notified:
  "storeInitialize env (nextObj st) = Inr (False, g) \<Longrightarrow>
   sendRequest env ''wingman/failedLoadingStore'' = Inr u \<Longrightarrow>
     openStore env st = (Inr (nextObj st, g), opened st True)"
  by (simp add: openStore_def opened_def server_defs)

lemma buildIndexer_no_settings:
  "indexerSettings st = None \<Longrightarrow> fst (buildIndexer env sid g st) = Inl TypeError"
  by (simp add: buildIndexer_def server_defs)

lemma buildIndexer_indexed:
  "indexerSettings st = Some ixs \<Longrightarrow>
   generateProjectDetails env (Suc (Suc (Suc (Suc (nextObj st))))) = Inr u \<Longrightarrow>
   embeddingSettings st = Some es \<Longrightarrow> enabled es \<Longrightarrow> createIndex env sid = Inr v \<Longrightarrow>
     buildIndexer env sid g st = (Inr (), built st sid g (indexFilter ixs) True)"
  by (simp add: buildIndexer_def built_def server_defs)

lemma opened_fields [simp]:
  "nextObj (opened st n) = Suc (nextObj st)"
  "indexerSettings (opened st n) = indexerSettings st"
  "embeddingSettings (opened st n) = embeddingSettings st"
  "vectorStore (opened st n) = Some (nextObj st)"
  "indexer (opened st n) = indexer st"
  "queue (opened st n) = queue st"
  "fileEventHandler (opened st n) = fileEventHandler st"
  "trace (opened st n) = trace st @
          [CreateAIProvider, ConsoleLog ''Wingman LSP initialized for workspace'',
           NewStore (nextObj st) (firstFolder st), StoreInitialize (nextObj st)] @
          (if n then [SendRequest ''wingman/failedLoadingStore''] else [])"
  by (simp_all add: opened_def)

lemma built_fields [simp]:
  "vectorStore (built st sid g f x) = vectorStore st"
  "codeGraph (built st sid g f x) = g"
  "codeParser (built st sid g f x) = Some (nextObj st)"
  "indexer (built st sid g f x) = Some (Suc (Suc (nextObj st)))"
  "queue (built st sid g f x) = Some (Suc (Suc (Suc (nextObj st))))"
  "projectDetails (built st sid g f x) = Some (Suc (Suc (Suc (Suc (nextObj st)))))"
  "fileEventHandler (built st sid g f x) = fileEventHandler st"
  "trace (built st sid g f x) = trace st @
          [NewCodeParser (nextObj st), NewGenerator (Suc (nextObj st)),
           NewIndexer (Suc (Suc (nextObj st))) g sid f,
           NewDocumentQueue (Suc (Suc (Suc (nextObj st)))) (Suc (Suc (nextObj st))),
           NewProjectDetailsHandler (Suc (Suc (Suc (Suc (nextObj st))))),
           GenerateProjectDetails (Suc (Suc (Suc (Suc (nextObj st)))))] @
          (if x then [StoreCreateIndex sid] else [])"
  by (simp_all add: built_def)

lemma buildIndexer_constructs:
  assumes "indexerSettings st = Some ixs"
  shows "indexer (snd (buildIndexer env sid g st)) = Some (Suc (Suc (nextObj st))) \<and>
         queue (snd (buildIndexer env sid g st)) = Some (Suc (Suc (Suc (nextObj st)))) \<and>
         take 4 (drop (length (trace st)) (trace (snd (buildIndexer env sid g st))))
           = [NewCodeParser (nextObj st), NewGenerator (Suc (nextObj st)),
              NewIndexer (Suc (Suc (nextObj st))) g sid (indexFilter ixs),
              NewDocumentQueue (Suc (Suc (Suc (nextObj st)))) (Suc (Suc (nextObj st)))]"
  using assms
  by (simp add: buildIndexer_def server_defs split: sum.splits option.splits)

subsection \<open>The handlers\<close>

text \<open>
  C1. The \<^verbatim>\<open>wingman/getEmbeddings\<close> handler never rejects: it always returns a
  response. Whenever a step inside its \<^verbatim>\<open>try\<close> throws (the query rejects, the query
  gives no documents object, or reading the project details rejects) the response is
  the fallback, with no documents and the empty project description.
\<close>

theorem getEmbeddings_never_throws:
  "(\<exists>r. fst (getEmbeddings env q st) = Inr r) \<and>
   ((\<exists>e. retrieveDocumentsWithRelatedCode env q (codeGraph st) (vectorStore st) (firstFolder st) 3
            = Inl e) \<longrightarrow>
      fst (getEmbeddings env q st) = Inr \<lparr>codeDocs = [], er_projectDetails = Some []\<rparr>) \<and>
   (retrieveDocumentsWithRelatedCode env q (codeGraph st) (vectorStore st) (firstFolder st) 3
      = Inr None \<longrightarrow>
      fst (getEmbeddings env q st) = Inr \<lparr>codeDocs = [], er_projectDetails = Some []\<rparr>) \<and>
   ((\<exists>h e. projectDetails st = Some h \<and> retrieveProjectDetails env h = Inl e) \<longrightarrow>
      fst (getEmbeddings env q st) = Inr \<lparr>codeDocs = [], er_projectDetails = Some []\<rparr>)"
  by (auto simp: getEmbeddings_def caught_def getEmbeddingsFallback_def server_defs
           split: sum.splits option.splits)

theorem getEmbeddings_never_throws_witness:
  "retrieveDocumentsWithRelatedCode env_query_throws ''how do I log in'' (codeGraph server_ready)
       (vectorStore server_ready) (firstFolder server_ready) 3 = Inl (Rejected ''no index'') \<and>
   fst (getEmbeddings env_query_throws ''how do I log in'' server_ready)
     = Inr \<lparr>codeDocs = [], er_projectDetails = Some []\<rparr>"
proof -
  have h: "retrieveDocumentsWithRelatedCode env_query_throws ''how do I log in''
       (codeGraph server_ready) (vectorStore server_ready) (firstFolder server_ready) 3
        = Inl (Rejected ''no index'')"
    by (simp add: env_query_throws_def env0_def)
  with getEmbeddings_never_throws [of env_query_throws "''how do I log in''" server_ready]
  show ?thesis by blast
qed

lemma with_open_store_fields:
  "generateProjectDetails (with_open_store env g') = generateProjectDetails env"
  "createIndex (with_open_store env g') = createIndex env"
  by (simp_all add: with_open_store_def)

lemma buildIndexer_env:
  "buildIndexer (with_open_store env g') sid g st = buildIndexer env sid g st"
  unfolding buildIndexer_def with_open_store_fields by (rule refl)

lemma buildIndexer_prefix:
  "take (length (trace st)) (trace (snd (buildIndexer env sid g st))) = trace st"
  by (simp add: buildIndexer_def server_defs split: sum.splits option.splits)

lemma buildIndexer_shift:
  "buildIndexer env sid g (st\<lparr>trace := t\<rparr>) =
     (fst (buildIndexer env sid g st),
      (snd (buildIndexer env sid g st))
        \<lparr>trace := t @ drop (length (trace st)) (trace (snd (buildIndexer env sid g st)))\<rparr>)"
  by (simp add: buildIndexer_def server_defs split: sum.splits option.splits)

lemma opened_notified: "opened st True =
    (opened st False)\<lparr>trace := trace (opened st False) @ [SendRequest ''wingman/failedLoadingStore'']\<rparr>"
  by (simp add: opened_def)

lemma postInitialize_as_open:
  assumes "storeInitialize env (nextObj st) = Inr (False, graph)"
    and "sendRequest env ''wingman/failedLoadingStore'' = Inr ()"
  shows "fst (postInitialize env st) = fst (postInitialize (with_open_store env graph) st) \<and>
         (snd (postInitialize env st))\<lparr>trace := []\<rparr>
           = (snd (postInitialize (with_open_store env graph) st))\<lparr>trace := []\<rparr> \<and>
         trace (snd (postInitialize env st))
           = take (length (trace st) + 4) (trace (snd (postInitialize (with_open_store env graph) st)))
             @ SendRequest ''wingman/failedLoadingStore''
             # drop (length (trace st) + 4)
                 (trace (snd (postInitialize (with_open_store env graph) st)))"
proof -
  let ?B = "buildIndexer env (nextObj st) graph (opened st False)"
  have s: "storeInitialize (with_open_store env graph) (nextObj st) = Inr (True, graph)"
    by (simp add: with_open_store_def)
  from openStore_ok [OF s]
  have ok: "postInitialize (with_open_store env graph) st = ?B"
    by (simp add: postInitialize_def buildIndexer_env)
  from openStore_notified [OF assms]
  have "postInitialize env st = buildIndexer env (nextObj st) graph (opened st True)"
    by (simp add: postInitialize_def)
  also have "\<dots> = (fst ?B, (snd ?B)\<lparr>trace :=
       (trace (opened st False) @ [SendRequest ''wingman/failedLoadingStore''])
       @ drop (length (trace (opened st False))) (trace (snd ?B))\<rparr>)"
    by (subst opened_notified) (rule buildIndexer_shift)
  finally have p: "postInitialize env st = (fst ?B, (snd ?B)\<lparr>trace :=
       (trace (opened st False) @ [SendRequest ''wingman/failedLoadingStore''])
       @ drop (length (trace (opened st False))) (trace (snd ?B))\<rparr>)" .
  have l: "length (trace (opened st False)) = length (trace st) + 4" by simp
  from buildIndexer_prefix [of "opened st False" env "nextObj st" graph]
  have t: "take (length (trace st) + 4) (trace (snd ?B)) = trace (opened st False)"
    by (simp only: l)
  show ?thesis
    by (simp only: p ok fst_conv snd_conv t l) simp
qed

lemma buildIndexer_full:
  assumes "indexerSettings st = Some ixs"
    and "generateProjectDetails env (Suc (Suc (Suc (Suc (nextObj st))))) = Inr ()"
    and "embeddingSettings st = Some es"
  shows "trace (snd (buildIndexer env sid g st)) = trace st @
          [NewCodeParser (nextObj st), NewGenerator (Suc (nextObj st)),
           NewIndexer (Suc (Suc (nextObj st))) g sid (indexFilter ixs),
           NewDocumentQueue (Suc (Suc (Suc (nextObj st)))) (Suc (Suc (nextObj st))),
           NewProjectDetailsHandler (Suc (Suc (Suc (Suc (nextObj st))))),
           GenerateProjectDetails (Suc (Suc (Suc (Suc (nextObj st)))))] @
          (if enabled es then [StoreCreateIndex sid] else [])"
  using assms by (simp add: buildIndexer_def server_defs split: sum.splits)

lemma buildIndexer_no_settings_state:
  "indexerSettings st = None \<Longrightarrow>
     indexer (snd (buildIndexer env sid g st)) = indexer st \<and>
     queue (snd (buildIndexer env sid g st)) = queue st"
  by (simp add: buildIndexer_def server_defs)

text \<open>
  C2, as amended. When \<^verbatim>\<open>Store.initialize\<close> answers with \<^verbatim>\<open>result = false\<close>,
  \<^verbatim>\<open>postInitialize\<close> surfaces the failure by sending the request
  \<^verbatim>\<open>wingman/failedLoadingStore\<close> to the client, before anything else is built. If that
  request rejects, \<^verbatim>\<open>postInitialize\<close> rejects with the same error, nothing more is
  called, and no indexer and no queue is built. If it resolves, \<^verbatim>\<open>postInitialize\<close> does
  not stop: it goes on exactly as after a successful open of the store with the same code
  graph (the same outcome, the same objects, the same calls, the request apart). So with
  indexer settings it builds the indexer and the document queue and, once the project
  details are generated and the embedding settings are there, calls \<^verbatim>\<open>createIndex\<close>
  exactly when embeddings are enabled; without indexer settings it throws a
  \<^verbatim>\<open>TypeError\<close> before either is built, as it does after a successful open.
\<close>

theorem postInitialize_store_failure:
  assumes "storeInitialize env (nextObj st) = Inr (False, graph)"
  shows "take (length (trace st) + 5) (trace (snd (postInitialize env st)))
           = trace st @ [CreateAIProvider, ConsoleLog ''Wingman LSP initialized for workspace'',
               NewStore (nextObj st) (firstFolder st), StoreInitialize (nextObj st),
               SendRequest ''wingman/failedLoadingStore''] \<and>
         (\<forall>e. sendRequest env ''wingman/failedLoadingStore'' = Inl e \<longrightarrow>
            fst (postInitialize env st) = Inl e \<and>
            length (trace (snd (postInitialize env st))) = length (trace st) + 5 \<and>
            indexer (snd (postInitialize env st)) = indexer st \<and>
            queue (snd (postInitialize env st)) = queue st) \<and>
         (sendRequest env ''wingman/failedLoadingStore'' = Inr () \<longrightarrow>
            fst (postInitialize env st) = fst (postInitialize (with_open_store env graph) st) \<and>
            (snd (postInitialize env st))\<lparr>trace := []\<rparr>
              = (snd (postInitialize (with_open_store env graph) st))\<lparr>trace := []\<rparr> \<and>
            trace (snd (postInitialize env st))
              = take (length (trace st) + 4)
                  (trace (snd (postInitialize (with_open_store env graph) st)))
                @ SendRequest ''wingman/failedLoadingStore''
                # drop (length (trace st) + 4)
                    (trace (snd (postInitialize (with_open_store env graph) st)))) \<and>
         (\<forall>ixs. sendRequest env ''wingman/failedLoadingStore'' = Inr () \<and>
                indexerSettings st = Some ixs \<longrightarrow>
            indexer (snd (postInitialize env st)) = Some (nextObj st + 3) \<and>
            queue (snd (postInitialize env st)) = Some (nextObj st + 4) \<and>
            take 4 (drop (length (trace st) + 5) (trace (snd (postInitialize env st))))
              = [NewCodeParser (nextObj st + 1), NewGenerator (nextObj st + 2),
                 NewIndexer (nextObj st + 3) graph (nextObj st) (indexFilter ixs),
                 NewDocumentQueue (nextObj st + 4) (nextObj st + 3)]) \<and>
         (\<forall>ixs es. sendRequest env ''wingman/failedLoadingStore'' = Inr () \<and>
                indexerSettings st = Some ixs \<and>
                generateProjectDetails env (nextObj st + 5) = Inr () \<and>
                embeddingSettings st = Some es \<longrightarrow>
            drop (length (trace st) + 5) (trace (snd (postInitialize env st)))
              = [NewCodeParser (nextObj st + 1), NewGenerator (nextObj st + 2),
                 NewIndexer (nextObj st + 3) graph (nextObj st) (indexFilter ixs),
                 NewDocumentQueue (nextObj st + 4) (nextObj st + 3),
                 NewProjectDetailsHandler (nextObj st + 5),
                 GenerateProjectDetails (nextObj st + 5)]
                @ (if enabled es then [StoreCreateIndex (nextObj st)] else [])) \<and>
         (sendRequest env ''wingman/failedLoadingStore'' = Inr () \<and> indexerSettings st = None \<longrightarrow>
            fst (postInitialize env st) = Inl TypeError \<and>
            indexer (snd (postInitialize env st)) = indexer st \<and>
            queue (snd (postInitialize env st)) = queue st)"
proof (cases "sendRequest env ''wingman/failedLoadingStore''")
  case (Inl e)
  from openStore_rejected [OF assms Inl]
  have "postInitialize env st = (Inl e, opened st True)" by (simp add: postInitialize_def)
  with Inl show ?thesis by simp
next
  case (Inr u)
  then have r: "sendRequest env ''wingman/failedLoadingStore'' = Inr ()" by simp
  from openStore_notified [OF assms Inr]
  have p: "postInitialize env st = buildIndexer env (nextObj st) graph (opened st True)"
    by (simp add: postInitialize_def)
  let ?b = "snd (buildIndexer env (nextObj st) graph (opened st True))"
  have pre: "take (length (trace st) + 5) (trace ?b)
           = trace st @ [CreateAIProvider, ConsoleLog ''Wingman LSP initialized for workspace'',
               NewStore (nextObj st) (firstFolder st), StoreInitialize (nextObj st),
               SendRequest ''wingman/failedLoadingStore'']"
    using buildIndexer_prefix [of "opened st True" env "nextObj st" graph]
    by (simp add: eval_nat_numeral)
  have post: "indexer ?b = Some (nextObj st + 3) \<and> queue ?b = Some (nextObj st + 4) \<and>
      take 4 (drop (length (trace st) + 5) (trace ?b))
              = [NewCodeParser (nextObj st + 1), NewGenerator (nextObj st + 2),
                 NewIndexer (nextObj st + 3) graph (nextObj st) (indexFilter ixs),
                 NewDocumentQueue (nextObj st + 4) (nextObj st + 3)]"
    if "indexerSettings st = Some ixs" for ixs
    using buildIndexer_constructs [of "opened st True" ixs env "nextObj st" graph] that
    by (simp add: eval_nat_numeral)
  have full: "drop (length (trace st) + 5) (trace ?b)
              = [NewCodeParser (nextObj st + 1), NewGenerator (nextObj st + 2),
                 NewIndexer (nextObj st + 3) graph (nextObj st) (indexFilter ixs),
                 NewDocumentQueue (nextObj st + 4) (nextObj st + 3),
                 NewProjectDetailsHandler (nextObj st + 5),
                 GenerateProjectDetails (nextObj st + 5)]
                @ (if enabled es then [StoreCreateIndex (nextObj st)] else [])"
    if "indexerSettings st = Some ixs" "generateProjectDetails env (nextObj st + 5) = Inr ()"
       "embeddingSettings st = Some es" for ixs es
    using buildIndexer_full [of "opened st True" ixs env es "nextObj st" graph] that
    by (simp add: eval_nat_numeral)
  have none: "fst (buildIndexer env (nextObj st) graph (opened st True)) = Inl TypeError \<and>
      indexer ?b = indexer st \<and> queue ?b = queue st" if "indexerSettings st = None"
    using buildIndexer_no_settings [of "opened st True" env "nextObj st" graph]
      buildIndexer_no_settings_state [of "opened st True" env "nextObj st" graph] that
    by simp
  from postInitialize_as_open [OF assms r] r p pre post full none show ?thesis
    by simp
qed

theorem postInitialize_store_failure_witness:
  "storeInitialize env_store_fails (nextObj server_fresh) = Inr (False, None) \<and>
   sendRequest env_store_fails ''wingman/failedLoadingStore'' = Inr () \<and>
   indexerSettings server_fresh = Some \<lparr>indexFilter = ''**/*.ts''\<rparr> \<and>
   generateProjectDetails env_store_fails 5 = Inr () \<and>
   embeddingSettings server_fresh = Some \<lparr>enabled = True\<rparr> \<and>
   indexer (snd (postInitialize env_store_fails server_fresh)) = Some 3 \<and>
   queue (snd (postInitialize env_store_fails server_fresh)) = Some 4 \<and>
   drop 5 (trace (snd (postInitialize env_store_fails server_fresh)))
     = [NewCodeParser 1, NewGenerator 2, NewIndexer 3 None 0 ''**/*.ts'', NewDocumentQueue 4 3,
        NewProjectDetailsHandler 5, GenerateProjectDetails 5, StoreCreateIndex 0]"
proof -
  have h: "storeInitialize env_store_fails (nextObj server_fresh) = Inr (False, None)"
    and s: "sendRequest env_store_fails ''wingman/failedLoadingStore'' = Inr ()"
    and i: "indexerSettings server_fresh = Some \<lparr>indexFilter = ''**/*.ts''\<rparr>"
    and g: "generateProjectDetails env_store_fails 5 = Inr ()"
    and e: "embeddingSettings server_fresh = Some \<lparr>enabled = True\<rparr>"
    and n: "nextObj server_fresh = 0" and t: "trace server_fresh = []"
    by (simp_all add: env_store_fails_def env0_def server_fresh_def)
  have g': "generateProjectDetails env_store_fails (nextObj server_fresh + 5) = Inr ()"
    by (simp add: env_store_fails_def env0_def)
  note r = postInitialize_store_failure [OF h]
  from r s i
  have a: "indexer (snd (postInitialize env_store_fails server_fresh))
             = Some (nextObj server_fresh + 3) \<and>
           queue (snd (postInitialize env_store_fails server_fresh))
             = Some (nextObj server_fresh + 4)"
    by blast
  from r s i g' e
  have b: "drop (length (trace server_fresh) + 5)
             (trace (snd (postInitialize env_store_fails server_fresh)))
           = [NewCodeParser (nextObj server_fresh + 1), NewGenerator (nextObj server_fresh + 2),
              NewIndexer (nextObj server_fresh + 3) None (nextObj server_fresh)
                (indexFilter \<lparr>indexFilter = ''**/*.ts''\<rparr>),
              NewDocumentQueue (nextObj server_fresh + 4) (nextObj server_fresh + 3),
              NewProjectDetailsHandler (nextObj server_fresh + 5),
              GenerateProjectDetails (nextObj server_fresh + 5)]
             @ (if enabled \<lparr>enabled = True\<rparr> then [StoreCreateIndex (nextObj server_fresh)]
                else [])"
    by blast
  from a b n t
  have "indexer (snd (postInitialize env_store_fails server_fresh)) = Some 3 \<and>
        queue (snd (postInitialize env_store_fails server_fresh)) = Some 4 \<and>
        drop 5 (trace (snd (postInitialize env_store_fails server_fresh)))
          = [NewCodeParser 1, NewGenerator 2, NewIndexer 3 None 0 ''**/*.ts'',
             NewDocumentQueue 4 3, NewProjectDetailsHandler 5, GenerateProjectDetails 5,
             StoreCreateIndex 0]"
    by simp
  with h s i g e show ?thesis by simp
qed

text \<open>
  C2 as stated fails: the store answers \<^verbatim>\<open>result = false\<close>, the client is told, and
  \<^verbatim>\<open>postInitialize\<close> resolves with an indexer and a queue built and \<^verbatim>\<open>createIndex\<close>
  called.
\<close>

theorem postInitialize_store_failure_counterexample:
  "storeInitialize env_store_fails (nextObj server_fresh) = Inr (False, None) \<and>
   fst (postInitialize env_store_fails server_fresh) = Inr () \<and>
   indexer (snd (postInitialize env_store_fails server_fresh)) = Some 3 \<and>
   queue (snd (postInitialize env_store_fails server_fresh)) = Some 4 \<and>
   trace (snd (postInitialize env_store_fails server_fresh)) =
     [CreateAIProvider, ConsoleLog ''Wingman LSP initialized for workspace'',
      NewStore 0 (Some ''/ws''), StoreInitialize 0, SendRequest ''wingman/failedLoadingStore'',
      NewCodeParser 1, NewGenerator 2, NewIndexer 3 None 0 ''**/*.ts'', NewDocumentQueue 4 3,
      NewProjectDetailsHandler 5, GenerateProjectDetails 5, StoreCreateIndex 0]"
  by (simp add: postInitialize_def openStore_def buildIndexer_def server_defs
        env_store_fails_def env0_def server_fresh_def)

text \<open>
  C3, as amended. On a server with a store and an indexer, when \<^verbatim>\<open>indexExists\<close>
  resolves, the \<^verbatim>\<open>wingman/getIndex\<close> handler returns an object with exactly the fields
  \<^verbatim>\<open>exists\<close> (the boolean of the store's \<^verbatim>\<open>indexExists\<close>), \<^verbatim>\<open>processing\<close> (the boolean
  of the indexer's \<^verbatim>\<open>isSyncing\<close>) and \<^verbatim>\<open>files\<close> (the keys of the code graph's symbol
  table, the empty list without a graph).
\<close>

theorem getIndex_fields:
  assumes "vectorStore st = Some s" and "indexExists env s = Inr b" and "indexer st = Some i"
  shows "getIndex env st =
           Inr [(''exists'', JBool b),
                (''processing'', JBool (isSyncing env i)),
                (''files'', JStrings (case codeGraph st of
                                        None \<Rightarrow> []
                                      | Some g \<Rightarrow> symbolTableKeys env g))]"
  using assms by (simp add: getIndex_def)

theorem getIndex_fields_witness:
  "vectorStore server_ready = Some 0 \<and> indexExists env0 0 = Inr True \<and>
   indexer server_ready = Some 3 \<and>
   getIndex env0 server_ready =
     Inr [(''exists'', JBool True), (''processing'', JBool False),
          (''files'', JStrings [''/ws/a.ts''])]"
proof -
  have a: "vectorStore server_ready = Some 0" and b: "indexExists env0 0 = Inr True"
    and c: "indexer server_ready = Some 3"
    by (simp_all add: server_ready_def env0_def)
  from getIndex_fields [OF a b c] a b c show ?thesis
    by (simp add: server_ready_def env0_def)
qed

text \<open>
  C3 as stated fails: the object returned has the fields \<^verbatim>\<open>exists\<close>, \<^verbatim>\<open>processing\<close>
  and \<^verbatim>\<open>files\<close>, and no field \<^verbatim>\<open>syncing\<close>.
\<close>

theorem getIndex_fields_counterexample:
  "(case getIndex env0 server_ready of
      Inl e \<Rightarrow> False
    | Inr r \<Rightarrow> map fst r = [''exists'', ''processing'', ''files''] \<and> map_of r ''syncing'' = None)"
  by (simp add: getIndex_def env0_def server_ready_def)

lemma fullIndexBuild_enabled:
  assumes "embeddingSettings st = Some es" and "enabled es"
    and "vectorStore st = Some s" and "createIndex env s = Inr u"
    and "indexer st = Some i"
  shows "fullIndexBuild env fs st =
           (Inr (), st\<lparr>trace := trace st @
               [ClearFilterCache, ConsoleLog ''Starting full index build'', StoreCreateIndex s,
                ProcessDocuments i (map (filePathToUri env) fs) True] @
               (case processDocuments env i (map (filePathToUri env) fs) True of
                  Inl e \<Rightarrow> [ConsoleError] | Inr v \<Rightarrow> [])\<rparr>)"
  using assms by (simp add: fullIndexBuild_def server_defs split: sum.splits)

lemma fullIndexBuild_resolves: "fst (fullIndexBuild env fs st) = Inr ()"
  by (simp add: fullIndexBuild_def server_defs split: option.splits sum.splits prod.splits)

lemma fullIndexBuild_disabled:
  "\<not> (\<exists>es. embeddingSettings st = Some es \<and> enabled es) \<Longrightarrow>
     fullIndexBuild env fs st = (Inr (), st)"
  by (cases "embeddingSettings st") (simp_all add: fullIndexBuild_def)

lemma fullIndexBuild_index_failed:
  assumes "embeddingSettings st = Some es" and "enabled es"
    and "vectorStore st = Some s" and "createIndex env s = Inl e"
  shows "fullIndexBuild env fs st =
           (Inr (), st\<lparr>trace := trace st @
               [ClearFilterCache, ConsoleLog ''Starting full index build'', StoreCreateIndex s,
                ConsoleError]\<rparr>)"
  using assms by (simp add: fullIndexBuild_def server_defs)

text \<open>
  C4, as amended. The \<^verbatim>\<open>wingman/fullIndexBuild\<close> handler never rejects, whatever the
  list of file paths. When embeddings are disabled (or there are no embedding settings) it
  returns at once: nothing is called and the server is unchanged. When embeddings are
  enabled, on a server with a store and an indexer, it clears the filter cache and calls
  \<^verbatim>\<open>createIndex\<close> of the store; when that resolves it calls \<^verbatim>\<open>processDocuments\<close> of the
  indexer on the paths converted to URIs with \<^verbatim>\<open>forceFull = true\<close>, so that the
  hash-cache skip is bypassed for every supplied file: the pass embeds every one of them
  again, whatever the cache holds. When \<^verbatim>\<open>createIndex\<close> rejects, the error is logged and
  \<^verbatim>\<open>processDocuments\<close> is not called.
\<close>

theorem fullIndexBuild_forces_full:
  "fst (fullIndexBuild env fs st) = Inr () \<and>
   (\<not> (\<exists>es. embeddingSettings st = Some es \<and> enabled es) \<longrightarrow>
      fullIndexBuild env fs st = (Inr (), st)) \<and>
   (\<forall>es s i. embeddingSettings st = Some es \<and> enabled es \<and> vectorStore st = Some s \<and>
        indexer st = Some i \<and> createIndex env s = Inr () \<longrightarrow>
      take 4 (drop (length (trace st)) (trace (snd (fullIndexBuild env fs st))))
        = [ClearFilterCache, ConsoleLog ''Starting full index build'', StoreCreateIndex s,
           ProcessDocuments i (map (filePathToUri env) fs) True] \<and>
      (\<forall>hashOf cache.
         event_reembeds hashOf cache
           (drop (length (trace st)) (trace (snd (fullIndexBuild env fs st))) ! 3)
           = map (filePathToUri env) fs)) \<and>
   (\<forall>es s i e. embeddingSettings st = Some es \<and> enabled es \<and> vectorStore st = Some s \<and>
        indexer st = Some i \<and> createIndex env s = Inl e \<longrightarrow>
      drop (length (trace st)) (trace (snd (fullIndexBuild env fs st)))
        = [ClearFilterCache, ConsoleLog ''Starting full index build'', StoreCreateIndex s,
           ConsoleError])"
proof -
  have ok: "take 4 (drop (length (trace st)) (trace (snd (fullIndexBuild env fs st))))
        = [ClearFilterCache, ConsoleLog ''Starting full index build'', StoreCreateIndex s,
           ProcessDocuments i (map (filePathToUri env) fs) True] \<and>
      (\<forall>hashOf cache.
         event_reembeds hashOf cache
           (drop (length (trace st)) (trace (snd (fullIndexBuild env fs st))) ! 3)
           = map (filePathToUri env) fs)"
    if "embeddingSettings st = Some es" "enabled es" "vectorStore st = Some s"
      "indexer st = Some i" "createIndex env s = Inr ()" for es s i
    by (simp add: fullIndexBuild_enabled [OF that(1,2,3,5,4)] Indexer_processDocuments_def)
  have failed: "drop (length (trace st)) (trace (snd (fullIndexBuild env fs st)))
        = [ClearFilterCache, ConsoleLog ''Starting full index build'', StoreCreateIndex s,
           ConsoleError]"
    if "embeddingSettings st = Some es" "enabled es" "vectorStore st = Some s"
      "createIndex env s = Inl e" for es s e
    by (simp add: fullIndexBuild_index_failed [OF that])
  from fullIndexBuild_resolves [of env fs st] fullIndexBuild_disabled [of st env fs] ok failed
  show ?thesis by blast
qed

theorem fullIndexBuild_forces_full_witness:
  "embeddingSettings server_ready = Some \<lparr>enabled = True\<rparr> \<and>
   vectorStore server_ready = Some 0 \<and> indexer server_ready = Some 3 \<and>
   createIndex env0 0 = Inr () \<and>
   take 4 (trace (snd (fullIndexBuild env0 [''/ws/a.ts''] server_ready)))
     = [ClearFilterCache, ConsoleLog ''Starting full index build'', StoreCreateIndex 0,
        ProcessDocuments 3 [''file:///ws/a.ts''] True] \<and>
   event_reembeds (\<lambda>p. ''h1'') [(''file:///ws/a.ts'', ''h1'')]
       (trace (snd (fullIndexBuild env0 [''/ws/a.ts''] server_ready)) ! 3)
     = [''file:///ws/a.ts''] \<and>
   event_reembeds (\<lambda>p. ''h1'') [(''file:///ws/a.ts'', ''h1'')]
       (ProcessDocuments 3 [''file:///ws/a.ts''] False)
     = []"
proof -
  have a: "embeddingSettings server_ready = Some \<lparr>enabled = True\<rparr>"
    and b: "enabled \<lparr>enabled = True\<rparr>"
    and c: "vectorStore server_ready = Some 0" and d: "createIndex env0 0 = Inr ()"
    and e: "indexer server_ready = Some 3"
    and t: "trace server_ready = []" and u: "filePathToUri env0 ''/ws/a.ts'' = ''file:///ws/a.ts''"
    by (simp_all add: server_ready_def env0_def)
  have f: "event_reembeds (\<lambda>p. ''h1'') [(''file:///ws/a.ts'', ''h1'')]
       (ProcessDocuments 3 [''file:///ws/a.ts''] False) = []"
    by (simp add: Indexer_processDocuments_def)
  from fullIndexBuild_forces_full [of env0 "[''/ws/a.ts'']" server_ready] a b c d e
  have "take 4 (drop (length (trace server_ready))
                  (trace (snd (fullIndexBuild env0 [''/ws/a.ts''] server_ready))))
           = [ClearFilterCache, ConsoleLog ''Starting full index build'', StoreCreateIndex 0,
              ProcessDocuments 3 (map (filePathToUri env0) [''/ws/a.ts'']) True] \<and>
        (\<forall>hashOf cache.
           event_reembeds hashOf cache
             (drop (length (trace server_ready))
                (trace (snd (fullIndexBuild env0 [''/ws/a.ts''] server_ready))) ! 3)
             = map (filePathToUri env0) [''/ws/a.ts''])"
    by blast
  with a c d e f t u show ?thesis by simp
qed

text \<open>
  C4 as stated fails: with embeddings disabled the handler returns at once; for the
  list with \<^verbatim>\<open>/ws/a.ts\<close> nothing is called and the server is unchanged.
\<close>

theorem fullIndexBuild_counterexample:
  "fullIndexBuild env0 [''/ws/a.ts''] server_disabled = (Inr (), server_disabled) \<and>
   trace server_disabled = []"
  by (simp add: fullIndexBuild_def server_disabled_def server_ready_def)

lemma deleteIndex_eq:
  assumes "vectorStore st = Some s" and "queue st = Some q"
  shows "deleteIndex env st =
           postInitialize env
             (st\<lparr>trace := trace st @ [ConsoleLog ''Received request to delete index'',
                                       StoreDeleteIndex s, QueueDispose q]\<rparr>)"
  using assms by (simp add: deleteIndex_def server_defs)

lemma built_settings [simp]:
  "nextObj (built st sid g f x) = Suc (Suc (Suc (Suc (Suc (nextObj st)))))"
  "indexerSettings (built st sid g f x) = indexerSettings st"
  "embeddingSettings (built st sid g f x) = embeddingSettings st"
  by (simp_all add: built_def)

lemma indexerSettings_trace:
  "trace (snd (indexerSettingsHandler env stg st)) =
     trace st @ ClearFilterCache #
       (case fileEventHandler st of None \<Rightarrow> [] | Some h \<Rightarrow> [FileEventHandlerDispose h]) @
       NewFileEventHandler (nextObj st) (vectorStore st) (queue st) (indexFilter stg) #
       (case indexer st of
          None \<Rightarrow> []
        | Some i \<Rightarrow>
            SetInclusionFilter i (indexFilter stg) #
            (case setInclusionFilter env i (indexFilter stg) of
               Inl e \<Rightarrow> [] | Inr u \<Rightarrow> [IndexerClearCache i]))"
  by (simp add: indexerSettingsHandler_def server_defs split: option.splits sum.splits)

lemma indexerSettings_objects:
  "vectorStore (snd (indexerSettingsHandler env stg st)) = vectorStore st \<and>
   codeGraph (snd (indexerSettingsHandler env stg st)) = codeGraph st \<and>
   indexer (snd (indexerSettingsHandler env stg st)) = indexer st \<and>
   queue (snd (indexerSettingsHandler env stg st)) = queue st"
  by (simp add: indexerSettingsHandler_def server_defs split: option.splits sum.splits)

lemma server_initialized_eq:
  "server_initialized =
      \<lparr>workspaceFolders = [''/ws''], vectorStore = Some 0, codeParser = Some 1,
       codeGraph = Some 0, queue = Some 4, indexer = Some 3, projectDetails = Some 5,
       fileEventHandler = Some 6, embeddingSettings = Some \<lparr>enabled = True\<rparr>,
       indexerSettings = Some \<lparr>indexFilter = ''**/*.ts''\<rparr>, nextObj = 7,
       trace = [CreateAIProvider, ConsoleLog ''Wingman LSP initialized for workspace'',
                NewStore 0 (Some ''/ws''), StoreInitialize 0,
                NewCodeParser 1, NewGenerator 2, NewIndexer 3 (Some 0) 0 ''**/*.ts'',
                NewDocumentQueue 4 3, NewProjectDetailsHandler 5, GenerateProjectDetails 5,
                StoreCreateIndex 0, NewFileEventHandler 6 (Some 0) (Some 4) ''**/*.ts'']\<rparr>"
  by (simp add: server_initialized_def onInitialized_def postInitialize_def openStore_def
        buildIndexer_def server_defs env0_def server_fresh_def)

lemma openStore_fileEventHandler:
  "fileEventHandler (snd (openStore env st)) = fileEventHandler st"
  by (simp add: openStore_def server_defs split: sum.splits prod.splits)

lemma buildIndexer_fileEventHandler:
  "fileEventHandler (snd (buildIndexer env sid g st)) = fileEventHandler st"
  by (simp add: buildIndexer_def server_defs split: sum.splits option.splits)

lemma postInitialize_fileEventHandler:
  "fileEventHandler (snd (postInitialize env st)) = fileEventHandler st"
proof (cases "openStore env st")
  case (Pair r st')
  with openStore_fileEventHandler [of env st] have f: "fileEventHandler st' = fileEventHandler st"
    by simp
  show ?thesis
  proof (cases r)
    case (Inl e)
    with Pair f show ?thesis by (simp add: postInitialize_def)
  next
    case (Inr sg)
    with Pair f buildIndexer_fileEventHandler [of env "fst sg" "snd sg" st'] show ?thesis
      by (auto simp: postInitialize_def split: prod.splits)
  qed
qed

text \<open>
  Whatever the server and the collaborators, the \<^verbatim>\<open>wingman/deleteIndex\<close> handler leaves
  the field \<^verbatim>\<open>fileEventHandler\<close> as it was.
\<close>

lemma deleteIndex_keeps_fileEventHandler:
  "fileEventHandler (snd (deleteIndex env st)) = fileEventHandler st"
  by (simp add: deleteIndex_def postInitialize_fileEventHandler server_defs split: option.splits)

text \<open>
  C5. The failing input: the request \<^verbatim>\<open>wingman/deleteIndex\<close> on the server as
  \<^verbatim>\<open>onInitialized\<close> leaves it, with store 0, queue 4 and the file event handler 6, built
  on that store and that queue. The handler calls \<^verbatim>\<open>deleteIndex\<close> of store 0 and
  \<^verbatim>\<open>dispose\<close> of queue 4, and \<^verbatim>\<open>postInitialize\<close> builds a new store 7, a new parser,
  a new indexer 10 and a new queue 11. But no new file event handler is built: the server
  still holds handler 6, which was given the deleted store 0 and the disposed queue 4, so
  the objects the server holds are not a fresh object graph and the new queue 11 is on no
  file event handler. The handler of \<^verbatim>\<open>wingman/indexerSettings\<close>, called next, does what
  is missing here: it disposes handler 6 and builds handler 13 on store 7 and queue 11.
\<close>

theorem deleteIndex_stale_fileEventHandler:
  "vectorStore server_initialized = Some 0 \<and> queue server_initialized = Some 4 \<and>
   fileEventHandler server_initialized = Some 6 \<and>
   last (trace server_initialized) = NewFileEventHandler 6 (Some 0) (Some 4) ''**/*.ts'' \<and>
   fst (deleteIndex env0 server_initialized) = Inr () \<and>
   drop (length (trace server_initialized)) (trace (snd (deleteIndex env0 server_initialized)))
     = [ConsoleLog ''Received request to delete index'', StoreDeleteIndex 0, QueueDispose 4,
        CreateAIProvider, ConsoleLog ''Wingman LSP initialized for workspace'',
        NewStore 7 (Some ''/ws''), StoreInitialize 7,
        NewCodeParser 8, NewGenerator 9, NewIndexer 10 (Some 0) 7 ''**/*.ts'',
        NewDocumentQueue 11 10, NewProjectDetailsHandler 12, GenerateProjectDetails 12,
        StoreCreateIndex 7] \<and>
   vectorStore (snd (deleteIndex env0 server_initialized)) = Some 7 \<and>
   indexer (snd (deleteIndex env0 server_initialized)) = Some 10 \<and>
   queue (snd (deleteIndex env0 server_initialized)) = Some 11 \<and>
   fileEventHandler (snd (deleteIndex env0 server_initialized)) = Some 6 \<and>
   drop (length (trace (snd (deleteIndex env0 server_initialized))))
     (trace (snd (indexerSettingsHandler env0 \<lparr>indexFilter = ''**/*.ts''\<rparr>
              (snd (deleteIndex env0 server_initialized)))))
     = [ClearFilterCache, FileEventHandlerDispose 6,
        NewFileEventHandler 13 (Some 7) (Some 11) ''**/*.ts'',
        SetInclusionFilter 10 ''**/*.ts'', IndexerClearCache 10]"
proof -
  let ?st = "server_initialized\<lparr>trace := trace server_initialized @
               [ConsoleLog ''Received request to delete index'', StoreDeleteIndex 0,
                QueueDispose 4]\<rparr>"
  have f: "vectorStore server_initialized = Some 0" "queue server_initialized = Some 4"
    "nextObj server_initialized = 7" "fileEventHandler server_initialized = Some 6"
    "indexerSettings server_initialized = Some \<lparr>indexFilter = ''**/*.ts''\<rparr>"
    "embeddingSettings server_initialized = Some \<lparr>enabled = True\<rparr>"
    "workspaceFolders server_initialized = [''/ws'']"
    by (simp_all add: server_initialized_eq)
  have d: "deleteIndex env0 server_initialized = postInitialize env0 ?st"
    using f(1,2) by (rule deleteIndex_eq)
  have "storeInitialize env0 (nextObj ?st) = Inr (True, Some 0)" by (simp add: env0_def)
  from openStore_ok [OF this]
  have p: "postInitialize env0 ?st = buildIndexer env0 7 (Some 0) (opened ?st False)"
    by (simp add: postInitialize_def f)
  have "buildIndexer env0 7 (Some 0) (opened ?st False)
          = (Inr (), built (opened ?st False) 7 (Some 0)
                       (indexFilter \<lparr>indexFilter = ''**/*.ts''\<rparr>) True)"
    by (rule buildIndexer_indexed [where es = "\<lparr>enabled = True\<rparr>" and u = "()" and v = "()"])
       (simp_all add: f env0_def)
  with d p have r: "deleteIndex env0 server_initialized
          = (Inr (), built (opened ?st False) 7 (Some 0) ''**/*.ts'' True)"
    by simp
  have t: "last (trace server_initialized)
             = NewFileEventHandler 6 (Some 0) (Some 4) ''**/*.ts''"
    by (simp add: server_initialized_eq)
  have s: "setInclusionFilter env0 i ''**/*.ts'' = Inr ()" for i by (simp add: env0_def)
  show ?thesis
    unfolding r by (simp add: f t s indexerSettings_trace firstFolder_def eval_nat_numeral)
qed

text \<open>
  C6. The \<^verbatim>\<open>wingman/indexerSettings\<close> handler removes nothing that is indexed: the
  calls it makes leave every File Record, every Graph node and every Vector Entry of the
  index as it was, whatever the new filter is, and the server keeps its store, its code
  graph and its indexer. When \<^verbatim>\<open>setInclusionFilter\<close> resolves, what has changed is the
  filter, which is the new one, and the hash cache, which is empty.
\<close>

theorem indexerSettings_keeps_index:
  "\<exists>ix'. run_events (drop (length (trace st)) (trace (snd (indexerSettingsHandler env stg st)))) ix
            = Some ix' \<and>
         ix_records ix' = ix_records ix \<and> ix_nodes ix' = ix_nodes ix \<and>
         ix_entries ix' = ix_entries ix \<and>
         vectorStore (snd (indexerSettingsHandler env stg st)) = vectorStore st \<and>
         codeGraph (snd (indexerSettingsHandler env stg st)) = codeGraph st \<and>
         indexer (snd (indexerSettingsHandler env stg st)) = indexer st \<and>
         (\<forall>i. indexer st = Some i \<and> setInclusionFilter env i (indexFilter stg) = Inr () \<longrightarrow>
            ix_filter ix' = indexFilter stg \<and> ix_cache ix' = [])"
  by (simp add: indexerSettings_trace indexerSettings_objects Indexer_setInclusionFilter_def
        Indexer_clearCache_def split: option.splits sum.splits)

theorem indexerSettings_keeps_index_witness:
  "indexer server_ready = Some 3 \<and>
   setInclusionFilter env0 3 (indexFilter \<lparr>indexFilter = ''**/*.ts''\<rparr>) = Inr () \<and>
   run_events (trace (snd (indexerSettingsHandler env0 \<lparr>indexFilter = ''**/*.ts''\<rparr> server_ready)))
      index0
     = Some (index0\<lparr>ix_filter := ''**/*.ts'', ix_cache := []\<rparr>)"
  using indexerSettings_keeps_index [of server_ready env0 "\<lparr>indexFilter = ''**/*.ts''\<rparr>" index0]
  by (simp add: indexerSettings_trace Indexer_setInclusionFilter_def
        Indexer_clearCache_def server_ready_def env0_def index0_def)

end
